theory Spec2Isabelle
  imports Main "HOL-Library.Word" "HOL-Library.Sublist" "HOL-Library.Signed_Division"
begin

section \<open>hget: data model\<close>

text \<open>
  Go's \<open>int64\<close> is a 64-bit word read as two's complement (\<open>sint\<close>); \<open>+\<close>, \<open>-\<close> and
  \<open>*\<close> wrap around as Go's do. Strings and file contents are byte strings.
\<close>

type_synonym int64 = "64 word"

text \<open>\<open>state.go\<close>: \<open>type Part struct\<close> and \<open>type State struct\<close>.\<close>

record Part =
  Index :: int64
  URL :: string
  Path :: string
  RangeFrom :: int64
  RangeTo :: int64

record State =
  URL :: string
  Parts :: "Part list"

text \<open>Go error values: a message (\<open>errors.New\<close>), or the error of a failed system call.\<close>

datatype error = ErrorString string | PathError string string string

text \<open>
  How a call ends: it returns, it panics (\<open>FatalCheck\<close>), or the process exits
  (\<open>os.Exit\<close>).
\<close>

datatype 'a outcome = Return 'a | Panic error | Exit int

text \<open>The part of \<open>net/url.URL\<close> the program reads.\<close>

record url_URL =
  Scheme :: string
  Host :: string
  url_Path :: string

text \<open>
  The environment of a run: what the standard library and the operating system answer.
  \<open>url_Parse\<close> is \<open>net/url.Parse\<close>, \<open>user_Current\<close> the home directory of
  \<open>os/user.Current\<close>, \<open>os_Getenv\<close> the environment variables, \<open>os_Getwd\<close> the
  working directory, \<open>dataFolder\<close> the
  package variable of that name (\<open>.hget/\<close> unless a test changes it), \<open>json_Marshal\<close>
  and \<open>json_Unmarshal\<close> are \<open>encoding/json\<close> at type \<open>State\<close> (\<open>json_Unmarshal\<close>
  takes the value it fills in and returns it with the error, if any), and \<open>dirSize\<close> is
  the size \<open>os.Stat\<close> reports for a directory.
\<close>

record env =
  url_Parse :: "string \<Rightarrow> error + url_URL"
  user_Current :: "error + string"
  os_Getenv :: "string \<Rightarrow> string"
  os_Getwd :: "error + string"
  dataFolder :: string
  json_Marshal :: "State \<Rightarrow> error + string"
  json_Unmarshal :: "string \<Rightarrow> State \<Rightarrow> State \<times> error option"
  dirSize :: int64

definition stateFileName :: string where
  "stateFileName = ''state.json''"

section \<open>Standard library: strings and paths (Unix)\<close>

text \<open>\<open>strings.Contains s substr\<close>.\<close>

definition strings_Contains :: "string \<Rightarrow> string \<Rightarrow> bool" where
  "strings_Contains s substr = sublist substr s"

text \<open>\<open>strings.TrimRight s cutset\<close>: drop the trailing bytes that occur in \<open>cutset\<close>.\<close>

definition strings_TrimRight :: "string \<Rightarrow> string \<Rightarrow> string" where
  "strings_TrimRight s cutset = rev (dropWhile (\<lambda>c. c \<in> set cutset) (rev s))"

text \<open>\<open>strings.Split s "/"\<close> and \<open>strings.Join elems "/"\<close>.\<close>

fun split_slash :: "string \<Rightarrow> string list" where
  "split_slash [] = [[]]"
| "split_slash (c # cs) =
     (if c = CHR ''/'' then [] # split_slash cs
      else (case split_slash cs of [] \<Rightarrow> [[c]] | e # es \<Rightarrow> (c # e) # es))"

fun join_slash :: "string list \<Rightarrow> string" where
  "join_slash [] = []"
| "join_slash [e] = e"
| "join_slash (e # es) = e @ ''/'' @ join_slash es"

text \<open>
  \<open>filepath.Clean\<close>, element by element as its documentation states it: empty and
  \<open>.\<close> elements go; \<open>..\<close> removes the element before it, is dropped at the root, and is
  kept at the start of a path that is not rooted. \<open>out\<close> is the cleaned path so far, last
  element first.
\<close>

fun clean_elems :: "bool \<Rightarrow> string list \<Rightarrow> string list \<Rightarrow> string list" where
  "clean_elems rooted [] out = out"
| "clean_elems rooted (e # es) out =
     (if e = [] \<or> e = ''.'' then clean_elems rooted es out
      else if e = ''..'' then
        (case out of
           [] \<Rightarrow> if rooted then clean_elems rooted es [] else clean_elems rooted es [''..'']
         | t # ts \<Rightarrow> if t = ''..'' then clean_elems rooted es (''..'' # out)
                     else clean_elems rooted es ts)
      else clean_elems rooted es (e # out))"

definition filepath_Clean :: "string \<Rightarrow> string" where
  "filepath_Clean path =
     (if path = [] then ''.''
      else let rooted = (hd path = CHR ''/'');
               out = join_slash (rev (clean_elems rooted (split_slash path) []))
           in if rooted then CHR ''/'' # out
              else if out = [] then ''.'' else out)"

text \<open>\<open>filepath.Base\<close>: the last element of the path.\<close>

definition filepath_Base :: "string \<Rightarrow> string" where
  "filepath_Base path =
     (if path = [] then ''.''
      else let p = rev (dropWhile (\<lambda>c. c = CHR ''/'') (rev path));
               e = rev (takeWhile (\<lambda>c. c \<noteq> CHR ''/'') (rev p))
           in if e = [] then ''/'' else e)"

text \<open>\<open>filepath.Join\<close>: leading empty elements are skipped, the rest is joined and cleaned.\<close>

definition filepath_Join :: "string list \<Rightarrow> string" where
  "filepath_Join elem =
     (case dropWhile (\<lambda>e. e = []) elem of
        [] \<Rightarrow> []
      | es \<Rightarrow> filepath_Clean (join_slash es))"

definition filepath_IsAbs :: "string \<Rightarrow> bool" where
  "filepath_IsAbs path = (path \<noteq> [] \<and> hd path = CHR ''/'')"

text \<open>\<open>filepath.Abs\<close>.\<close>

definition filepath_Abs :: "env \<Rightarrow> string \<Rightarrow> error + string" where
  "filepath_Abs e path =
     (if filepath_IsAbs path then Inr (filepath_Clean path)
      else (case os_Getwd e of
              Inl err \<Rightarrow> Inl err
            | Inr wd \<Rightarrow> Inr (filepath_Join [wd, path])))"

text \<open>
  \<open>filepath.Rel\<close>. \<open>rel_loop\<close> is its loop on what is left of \<open>base\<close> and
  \<open>targ\<close> (\<open>base[b0:]\<close> and \<open>targ[t0:]\<close>): it steps over equal leading elements and
  returns \<open>base[b0:bi]\<close> with the two rests.
\<close>

function rel_loop :: "string \<Rightarrow> string \<Rightarrow> string \<times> string \<times> string" where
  "rel_loop b t =
     (if b \<noteq> [] \<and> t \<noteq> [] then
        (let belem = takeWhile (\<lambda>c. c \<noteq> CHR ''/'') b;
             telem = takeWhile (\<lambda>c. c \<noteq> CHR ''/'') t
         in if telem \<noteq> belem then (belem, b, t)
            else rel_loop (drop 1 (dropWhile (\<lambda>c. c \<noteq> CHR ''/'') b))
                          (drop 1 (dropWhile (\<lambda>c. c \<noteq> CHR ''/'') t)))
      else ([], b, t))"
  by pat_completeness auto
termination
proof (relation "measure (\<lambda>(b, t). length b)")
  show "wf (measure (\<lambda>(b, t). length b))" by simp
next
  fix b t :: string and x xa
  assume "b \<noteq> [] \<and> t \<noteq> []"
  then have "length (drop 1 (dropWhile (\<lambda>c. c \<noteq> CHR ''/'') b)) < length b"
    using length_dropWhile_le [of "\<lambda>c. c \<noteq> CHR ''/''" b] by (cases b) auto
  then show "((drop 1 (dropWhile (\<lambda>c. c \<noteq> CHR ''/'') b),
               drop 1 (dropWhile (\<lambda>c. c \<noteq> CHR ''/'') t)), (b, t))
             \<in> measure (\<lambda>(b, t). length b)"
    by simp
qed

definition Rel_error :: "string \<Rightarrow> string \<Rightarrow> error" where
  "Rel_error basepath targpath =
     ErrorString (''Rel: can't make '' @ targpath @ '' relative to '' @ basepath)"

definition filepath_Rel :: "string \<Rightarrow> string \<Rightarrow> error + string" where
  "filepath_Rel basepath targpath =
     (let base = filepath_Clean basepath; targ = filepath_Clean targpath
      in if targ = base then Inr ''.''
         else
           (let base = (if base = ''.'' then [] else base);
                baseSlashed = (base \<noteq> [] \<and> hd base = CHR ''/'');
                targSlashed = (targ \<noteq> [] \<and> hd targ = CHR ''/'')
            in if baseSlashed \<noteq> targSlashed then Inl (Rel_error basepath targpath)
               else
                 (case rel_loop base targ of
                    (belem, b, t) \<Rightarrow>
                      if belem = ''..'' then Inl (Rel_error basepath targpath)
                      else if b \<noteq> [] then
                        (let seps = length (filter (\<lambda>c. c = CHR ''/'') b)
                         in Inr (''..'' @ concat (replicate seps ''/..'') @
                                 (if t \<noteq> [] then CHR ''/'' # t else [])))
                      else Inr t)))"

text \<open>
  \<open>fmt.Sprintf\<close> with the verbs \<open>%d\<close> and \<open>%06d\<close> at an integer: decimal digits, a
  minus sign for a negative value, and for \<open>%06d\<close> zeros after the sign up to width 6.
\<close>

fun decimal :: "nat \<Rightarrow> string" where
  "decimal n = (if n < 10 then [''0123456789'' ! n]
                else decimal (n div 10) @ [''0123456789'' ! (n mod 10)])"

definition fmt_d :: "int \<Rightarrow> string" where
  "fmt_d i = (if i < 0 then CHR ''-'' # decimal (nat (- i)) else decimal (nat i))"

definition fmt_06d :: "int \<Rightarrow> string" where
  "fmt_06d i =
     (let sign = (if i < 0 then ''-'' else []); ds = decimal (nat \<bar>i\<bar>)
      in sign @ replicate (6 - length sign - length ds) CHR ''0'' @ ds)"

text \<open>
  Go's \<open>/\<close> at \<open>int64\<close> truncates towards zero. (It panics on a zero divisor; the
  program divides by \<open>par\<close> only inside a loop that runs when \<open>0 < par\<close>.)
\<close>

definition int64_quo :: "int64 \<Rightarrow> int64 \<Rightarrow> int64" where
  "int64_quo a b = word_of_int (sint a sdiv sint b)"

text \<open>
  \<open>strings.ToLower\<close> on the ASCII letters; other bytes are kept (the program only
  searches the result for \<open>bytes\<close>).
\<close>

definition strings_ToLower :: "string \<Rightarrow> string" where
  "strings_ToLower s =
     map (\<lambda>c. if 65 \<le> (of_char c :: nat) \<and> (of_char c :: nat) \<le> 90
              then char_of ((of_char c :: nat) + 32) else c) s"

text \<open>\<open>strings.LastIndex s substr\<close>: the last index where \<open>substr\<close> starts, or \<open>-1\<close>.\<close>

definition strings_LastIndex :: "string \<Rightarrow> string \<Rightarrow> int" where
  "strings_LastIndex s substr =
     (case filter (\<lambda>i. prefix substr (drop i s)) (rev [0..<Suc (length s)]) of
        [] \<Rightarrow> - 1
      | i # _ \<Rightarrow> int i)"

text \<open>
  \<open>strconv.ParseInt(s, 10, 64)\<close>: an optional sign, then one or more decimal digits;
  a value outside \<open>int64\<close> is an error.
\<close>

definition is_digit :: "char \<Rightarrow> bool" where
  "is_digit c = (48 \<le> (of_char c :: nat) \<and> (of_char c :: nat) \<le> 57)"

definition digits_value :: "string \<Rightarrow> nat" where
  "digits_value s = foldl (\<lambda>n c. 10 * n + ((of_char c :: nat) - 48)) 0 s"

definition strconv_ParseInt :: "string \<Rightarrow> error + int64" where
  "strconv_ParseInt s =
     (if s = [] then Inl (ErrorString ''invalid syntax'')
      else
        (let neg = (hd s = CHR ''-'');
             s' = (if hd s = CHR ''+'' \<or> hd s = CHR ''-'' then tl s else s)
         in if s' = [] \<or> \<not> list_all is_digit s' then Inl (ErrorString ''invalid syntax'')
            else
              (let un = digits_value s'
               in if \<not> neg \<and> 2 ^ 63 \<le> un then Inl (ErrorString ''value out of range'')
                  else if neg \<and> 2 ^ 63 < un then Inl (ErrorString ''value out of range'')
                  else Inr (if neg then - of_nat un else of_nat un))))"

text \<open>\<open>filepath.Dir\<close>: the path up to its last separator, cleaned.\<close>

definition filepath_Dir :: "string \<Rightarrow> string" where
  "filepath_Dir path = filepath_Clean (rev (dropWhile (\<lambda>c. c \<noteq> CHR ''/'') (rev path)))"

section \<open>The file system\<close>

text \<open>
  A file system maps the absolute, cleaned path of each entry to a file with its bytes
  or to a directory. Permissions and links are not modelled.
\<close>

datatype node = File string | Dir

type_synonym fs = "string \<rightharpoonup> node"

definition ENOENT :: "string \<Rightarrow> string \<Rightarrow> error" where
  "ENOENT op path = PathError op path ''no such file or directory''"

text \<open>\<open>os.Stat(name)\<close>, reduced to the size it reports.\<close>

definition os_Stat :: "env \<Rightarrow> fs \<Rightarrow> string \<Rightarrow> error + int64" where
  "os_Stat e fsys name =
     (case filepath_Abs e name of
        Inl err \<Rightarrow> Inl err
      | Inr k \<Rightarrow>
          (case fsys k of
             None \<Rightarrow> Inl (ENOENT ''stat'' name)
           | Some Dir \<Rightarrow> Inr (dirSize e)
           | Some (File b) \<Rightarrow> Inr (of_nat (length b))))"

text \<open>\<open>os.ReadFile(name)\<close>.\<close>

definition os_ReadFile :: "env \<Rightarrow> fs \<Rightarrow> string \<Rightarrow> error + string" where
  "os_ReadFile e fsys name =
     (case filepath_Abs e name of
        Inl err \<Rightarrow> Inl err
      | Inr k \<Rightarrow>
          (case fsys k of
             None \<Rightarrow> Inl (ENOENT ''open'' name)
           | Some Dir \<Rightarrow> Inl (PathError ''read'' name ''is a directory'')
           | Some (File b) \<Rightarrow> Inr b))"

text \<open>
  \<open>os.MkdirAll(path, perm)\<close>: every directory on the way to \<open>path\<close> is created unless
  it is there; a file on the way is an error. \<open>dir_chain\<close> lists the paths on the way to
  an absolute cleaned path, the root left out.
\<close>

fun dir_chain :: "string \<Rightarrow> string list \<Rightarrow> string list" where
  "dir_chain parent [] = []"
| "dir_chain parent (el # els) =
     (if el = [] then dir_chain parent els
      else (parent @ CHR ''/'' # el) # dir_chain (parent @ CHR ''/'' # el) els)"

definition is_File :: "fs \<Rightarrow> string \<Rightarrow> bool" where
  "is_File fsys k = (case fsys k of Some (File b) \<Rightarrow> True | _ \<Rightarrow> False)"

definition os_MkdirAll :: "env \<Rightarrow> fs \<Rightarrow> string \<Rightarrow> fs \<times> error option" where
  "os_MkdirAll e fsys path =
     (case filepath_Abs e path of
        Inl err \<Rightarrow> (fsys, Some err)
      | Inr k \<Rightarrow>
          (let ks = dir_chain [] (split_slash k)
           in if \<exists>p \<in> set ks. is_File fsys p
              then (fsys, Some (PathError ''mkdir'' path ''not a directory''))
              else (fold (\<lambda>p f. f(p \<mapsto> Dir)) ks fsys, None)))"

text \<open>Whether a new entry can be made at \<open>k\<close>: its directory is the root or is there.\<close>

definition parent_exists :: "fs \<Rightarrow> string \<Rightarrow> bool" where
  "parent_exists fsys k = (filepath_Dir k = ''/'' \<or> fsys (filepath_Dir k) = Some Dir)"

text \<open>\<open>k\<close> is \<open>r\<close> or lies below it.\<close>

definition under :: "string \<Rightarrow> string \<Rightarrow> bool" where
  "under r k = (k = r \<or> prefix (r @ ''/'') k)"

text \<open>
  \<open>os.OpenFile(name, O_CREATE|O_WRONLY|O_APPEND, perm)\<close> followed by writing \<open>data\<close>:
  the file is created empty if it is not there, and \<open>data\<close> is appended.
\<close>

definition os_append :: "env \<Rightarrow> fs \<Rightarrow> string \<Rightarrow> string \<Rightarrow> fs \<times> error option" where
  "os_append e fsys name data =
     (case filepath_Abs e name of
        Inl err \<Rightarrow> (fsys, Some err)
      | Inr k \<Rightarrow>
          (case fsys k of
             Some Dir \<Rightarrow> (fsys, Some (PathError ''open'' name ''is a directory''))
           | Some (File b) \<Rightarrow> (fsys(k \<mapsto> File (b @ data)), None)
           | None \<Rightarrow>
               if parent_exists fsys k then (fsys(k \<mapsto> File data), None)
               else (fsys, Some (ENOENT ''open'' name))))"

text \<open>\<open>os.WriteFile(name, data, perm)\<close>: the file is created or truncated.\<close>

definition os_WriteFile :: "env \<Rightarrow> fs \<Rightarrow> string \<Rightarrow> string \<Rightarrow> fs \<times> error option" where
  "os_WriteFile e fsys name data =
     (case filepath_Abs e name of
        Inl err \<Rightarrow> (fsys, Some err)
      | Inr k \<Rightarrow>
          (case fsys k of
             Some Dir \<Rightarrow> (fsys, Some (PathError ''open'' name ''is a directory''))
           | Some (File b) \<Rightarrow> (fsys(k \<mapsto> File data), None)
           | None \<Rightarrow>
               if parent_exists fsys k then (fsys(k \<mapsto> File data), None)
               else (fsys, Some (ENOENT ''open'' name))))"

text \<open>
  \<open>os.Rename(oldpath, newpath)\<close>: a file replaces a file; a directory moves with all
  below it, onto nothing or onto an empty directory.
\<close>

definition os_Rename :: "env \<Rightarrow> fs \<Rightarrow> string \<Rightarrow> string \<Rightarrow> fs \<times> error option" where
  "os_Rename e fsys oldpath newpath =
     (case filepath_Abs e oldpath of
        Inl err \<Rightarrow> (fsys, Some err)
      | Inr ko \<Rightarrow>
          (case filepath_Abs e newpath of
             Inl err \<Rightarrow> (fsys, Some err)
           | Inr kn \<Rightarrow>
               (case fsys ko of
                  None \<Rightarrow> (fsys, Some (ENOENT ''rename'' oldpath))
                | Some (File b) \<Rightarrow>
                    if ko = kn then (fsys, None)
                    else if fsys kn = Some Dir
                    then (fsys, Some (PathError ''rename'' oldpath ''file exists''))
                    else if \<not> parent_exists fsys kn
                    then (fsys, Some (ENOENT ''rename'' oldpath))
                    else ((fsys(ko := None))(kn \<mapsto> File b), None)
                | Some Dir \<Rightarrow>
                    if ko = kn then (fsys, None)
                    else if under ko kn
                    then (fsys, Some (PathError ''rename'' oldpath ''invalid argument''))
                    else if is_File fsys kn
                    then (fsys, Some (PathError ''rename'' oldpath ''not a directory''))
                    else if \<exists>k \<in> dom fsys. under kn k \<and> k \<noteq> kn
                    then (fsys, Some (PathError ''rename'' oldpath ''directory not empty''))
                    else if \<not> parent_exists fsys kn
                    then (fsys, Some (ENOENT ''rename'' oldpath))
                    else ((\<lambda>k. if under ko k then None
                                else if under kn k then fsys (ko @ drop (length kn) k)
                                else fsys k), None))))"


section \<open>util.go\<close>

text \<open>
  The sources hold \<open>util.go\<close> in two revisions. The later one, which the tests of
  \<open>util_test.go\<close> exercise, cleans the path in \<open>TaskFromURL\<close> and checks the raw
  path in \<open>FolderOf\<close>; it is modelled as \<open>TaskFromURL\<close> and \<open>FolderOf\<close>, and the rest
  of the program is built on it. The earlier one is modelled as \<open>TaskFromURL_plain\<close> and
  \<open>FolderOf_getenv\<close>.

  \<open>TaskFromURL\<close>: \<open>FatalCheck\<close> panics on the parse error; otherwise the base name of
  the cleaned path, trailing slashes and backslashes trimmed.
\<close>

definition TaskFromURL :: "env \<Rightarrow> string \<Rightarrow> string outcome" where
  "TaskFromURL e urlStr =
     (case url_Parse e urlStr of
        Inl err \<Rightarrow> Panic err
      | Inr parsedURL \<Rightarrow>
          (let cleanPath = filepath_Clean (url_Path parsedURL)
           in Return (filepath_Base (strings_TrimRight cleanPath [CHR ''/'', CHR 0x5C]))))"

text \<open>The earlier \<open>TaskFromURL\<close>, without \<open>filepath.Clean\<close>.\<close>

definition TaskFromURL_plain :: "env \<Rightarrow> string \<Rightarrow> string outcome" where
  "TaskFromURL_plain e urlStr =
     (case url_Parse e urlStr of
        Inl err \<Rightarrow> Panic err
      | Inr parsedURL \<Rightarrow>
          Return (filepath_Base (strings_TrimRight (url_Path parsedURL) [CHR ''/'', CHR 0x5C])))"

text \<open>\<open>MkdirIfNotExist\<close>.\<close>

definition MkdirIfNotExist :: "env \<Rightarrow> fs \<Rightarrow> string \<Rightarrow> fs \<times> error option" where
  "MkdirIfNotExist e fsys folder =
     (case os_Stat e fsys folder of
        Inl err \<Rightarrow> os_MkdirAll e fsys folder
      | Inr sz \<Rightarrow> (fsys, None))"

definition traversal_error :: error where
  "traversal_error = ErrorString ''you may be a victim of directory traversal path attack''"

text \<open>
  \<open>FolderOf\<close>: every \<open>FatalCheck\<close> is a branch that panics. The function touches no
  file: it has no file system among its results.
\<close>

definition FolderOf :: "env \<Rightarrow> string \<Rightarrow> string outcome" where
  "FolderOf e urlStr =
     (case user_Current e of
        Inl err \<Rightarrow> Panic err
      | Inr homeDir \<Rightarrow>
          (let safePath = filepath_Join [homeDir, dataFolder e]
           in case url_Parse e urlStr of
                Inl err \<Rightarrow> Panic err
              | Inr parsedURL \<Rightarrow>
                  if strings_Contains (url_Path parsedURL) ''..'' then Panic traversal_error
                  else
                    (case TaskFromURL e urlStr of
                       Panic err \<Rightarrow> Panic err
                     | Exit c \<Rightarrow> Exit c
                     | Return cleanPath \<Rightarrow>
                         (case filepath_Abs e (filepath_Join [homeDir, dataFolder e, cleanPath]) of
                            Inl err \<Rightarrow> Panic err
                          | Inr fullQualifyPath \<Rightarrow>
                              (case filepath_Rel safePath fullQualifyPath of
                                 Inl err \<Rightarrow> Panic err
                               | Inr relative \<Rightarrow>
                                   if strings_Contains relative ''..'' then Panic traversal_error
                                   else Return fullQualifyPath)))))"

text \<open>
  The earlier \<open>FolderOf\<close>: the home directory is \<open>$HOME\<close>, and only the relative path
  from the data folder is searched for \<open>..\<close>.
\<close>

definition FolderOf_getenv :: "env \<Rightarrow> string \<Rightarrow> string outcome" where
  "FolderOf_getenv e urlStr =
     (let safePath = filepath_Join [os_Getenv e ''HOME'', dataFolder e]
      in case TaskFromURL_plain e urlStr of
           Panic err \<Rightarrow> Panic err
         | Exit c \<Rightarrow> Exit c
         | Return cleanPath \<Rightarrow>
             (case filepath_Abs e (filepath_Join [os_Getenv e ''HOME'', dataFolder e, cleanPath]) of
                Inl err \<Rightarrow> Panic err
              | Inr fullQualifyPath \<Rightarrow>
                  (case filepath_Rel safePath fullQualifyPath of
                     Inl err \<Rightarrow> Panic err
                   | Inr relative \<Rightarrow>
                       if strings_Contains relative ''..'' then Panic traversal_error
                       else Return fullQualifyPath)))"

section \<open>http.go: the range planner\<close>

text \<open>
  \<open>partCalculate\<close>. \<open>make([]Part, par)\<close> panics on a negative length; the loop runs
  \<open>j\<close> from 0 while \<open>j < par\<close> and assigns \<open>ret[j]\<close>. The file system is returned with
  every outcome, since \<open>MkdirIfNotExist\<close> may have changed it.
\<close>

definition zero_Part :: Part where
  "zero_Part = \<lparr>Index = 0, Part.URL = [], Path = [], RangeFrom = 0, RangeTo = 0\<rparr>"

function partCalculate_loop ::
  "env \<Rightarrow> int64 \<Rightarrow> int64 \<Rightarrow> string \<Rightarrow> int64 \<Rightarrow> fs \<Rightarrow> Part list \<Rightarrow> Part list outcome \<times> fs" where
  "partCalculate_loop e par len url j fsys ret =
     (if j <s par then
        (let from = int64_quo len par * j;
             to = (if j <s par - 1 then int64_quo len par * (j + 1) - 1 else len)
         in case TaskFromURL e url of
              Panic err \<Rightarrow> (Panic err, fsys)
            | Exit c \<Rightarrow> (Exit c, fsys)
            | Return file \<Rightarrow>
                (case FolderOf e url of
                   Panic err \<Rightarrow> (Panic err, fsys)
                 | Exit c \<Rightarrow> (Exit c, fsys)
                 | Return folder \<Rightarrow>
                     (case MkdirIfNotExist e fsys folder of
                        (fsys', Some err) \<Rightarrow> (Exit 1, fsys')
                      | (fsys', None) \<Rightarrow>
                          (let fname = file @ ''.part'' @ fmt_06d (sint j);
                               path = filepath_Join [folder, fname]
                           in partCalculate_loop e par len url (j + 1) fsys'
                                (ret[nat (sint j) :=
                                   \<lparr>Index = j, Part.URL = url, Path = path,
                                    RangeFrom = from, RangeTo = to\<rparr>])))))
      else (Return ret, fsys))"
  by pat_completeness auto
termination
proof (relation "measure (\<lambda>(e, par, len, url, j, fsys, ret). nat (sint par - sint j))")
  show "wf (measure (\<lambda>(e, par, len, url, j, fsys, ret). nat (sint par - sint j)))" by simp
next
  fix e :: env and par len j :: int64 and url :: string and fsys :: fs and ret :: "Part list"
    and x xa x1 x1a xb xc y x2
  assume lt: "j <s par"
  have "sint j < sint par" using lt by (simp add: word_sless_alt)
  moreover have "sint par < 2 ^ 63" using sint_lt [of par] by simp
  moreover have "- (2 ^ 63) \<le> sint j" using sint_ge [of j] by simp
  ultimately have "sint (j + 1) = sint j + 1"
    by (simp add: sint_word_ariths signed_take_bit_int_eq_self)
  then show "((e, par, len, url, j + 1, xc, ret[nat (sint j) :=
                 \<lparr>Index = j, Part.URL = url, Path = x2, RangeFrom = x, RangeTo = xa\<rparr>]),
              (e, par, len, url, j, fsys, ret))
             \<in> measure (\<lambda>(e, par, len, url, j, fsys, ret). nat (sint par - sint j))"
    using \<open>sint j < sint par\<close> by simp
qed

definition partCalculate ::
  "env \<Rightarrow> fs \<Rightarrow> int64 \<Rightarrow> int64 \<Rightarrow> string \<Rightarrow> Part list outcome \<times> fs" where
  "partCalculate e fsys par len url =
     (if par <s 0 then (Panic (ErrorString ''makeslice: len out of range''), fsys)
      else partCalculate_loop e par len url 0 fsys (replicate (nat (sint par)) zero_Part))"

section \<open>state.go\<close>

text \<open>
  \<open>Read(task)\<close> returns a pair as the Go function does: the state (or \<open>nil\<close>) and the
  error (or \<open>nil\<close>). Log output is not modelled.
\<close>

definition Read :: "env \<Rightarrow> fs \<Rightarrow> string \<Rightarrow> (State option \<times> error option) outcome" where
  "Read e fsys task =
     (case user_Current e of
        Inl err \<Rightarrow> Panic err
      | Inr homeDir \<Rightarrow>
          (case TaskFromURL e task of
             Panic err \<Rightarrow> Panic err
           | Exit c \<Rightarrow> Exit c
           | Return taskName \<Rightarrow>
               (let file = filepath_Join [homeDir, dataFolder e, taskName, stateFileName]
                in case os_ReadFile e fsys file of
                     Inl err \<Rightarrow> Return (None, Some err)
                   | Inr bytes \<Rightarrow>
                       (case json_Unmarshal e bytes \<lparr>State.URL = [], Parts = []\<rparr> of
                          (s, err) \<Rightarrow> Return (Some s, err)))))"

text \<open>
  \<open>(*State).Save\<close>: the loop that moves the part files into the task folder stops at the
  first rename that fails. The result is the error returned (or \<open>nil\<close>) and the file
  system as the call leaves it.
\<close>

fun Save_rename :: "env \<Rightarrow> fs \<Rightarrow> string \<Rightarrow> Part list \<Rightarrow> fs \<times> error option" where
  "Save_rename e fsys folder [] = (fsys, None)"
| "Save_rename e fsys folder (part # parts) =
     (case os_Rename e fsys (Path part) (filepath_Join [folder, filepath_Base (Path part)]) of
        (fsys', Some err) \<Rightarrow> (fsys', Some err)
      | (fsys', None) \<Rightarrow> Save_rename e fsys' folder parts)"

definition Save :: "env \<Rightarrow> fs \<Rightarrow> State \<Rightarrow> error option outcome \<times> fs" where
  "Save e fsys s =
     (case FolderOf e (State.URL s) of
        Panic err \<Rightarrow> (Panic err, fsys)
      | Exit c \<Rightarrow> (Exit c, fsys)
      | Return folder \<Rightarrow>
          (case MkdirIfNotExist e fsys folder of
             (fsys1, Some err) \<Rightarrow> (Return (Some err), fsys1)
           | (fsys1, None) \<Rightarrow>
               (case Save_rename e fsys1 folder (Parts s) of
                  (fsys2, Some err) \<Rightarrow> (Return (Some err), fsys2)
                | (fsys2, None) \<Rightarrow>
                    (case json_Marshal e s of
                       Inl err \<Rightarrow> (Return (Some err), fsys2)
                     | Inr j \<Rightarrow>
                         (case os_WriteFile e fsys2 (filepath_Join [folder, stateFileName]) j of
                            (fsys3, err) \<Rightarrow> (Return err, fsys3))))))"

section \<open>resume.go\<close>

text \<open>Go's built-in \<open>min\<close> at \<open>int64\<close>.\<close>

definition min_int64 :: "int64 \<Rightarrow> int64 \<Rightarrow> int64" where
  "min_int64 a b = (if a <s b then a else b)"

text \<open>
  The loop of \<open>Resume\<close> over the indices of \<open>state.Parts\<close>: \<open>part\<close> is the element as
  it is when its turn comes, and only \<open>state.Parts[i].RangeFrom\<close> is assigned.
\<close>

fun Resume_loop :: "env \<Rightarrow> fs \<Rightarrow> nat list \<Rightarrow> State \<Rightarrow> State" where
  "Resume_loop e fsys [] state = state"
| "Resume_loop e fsys (i # is) state =
     (let part = Parts state ! i
      in case os_Stat e fsys (Path part) of
           Inl err \<Rightarrow> Resume_loop e fsys is state
         | Inr downloaded \<Rightarrow>
             (let newFrom = min_int64 (RangeFrom part + downloaded) (RangeTo part)
              in Resume_loop e fsys is
                   (state\<lparr>Parts := (Parts state)[i := (Parts state ! i)\<lparr>RangeFrom := newFrom\<rparr>]\<rparr>)))"

definition Resume :: "env \<Rightarrow> fs \<Rightarrow> string \<Rightarrow> (State option \<times> error option) outcome" where
  "Resume e fsys task =
     (case Read e fsys task of
        Panic err \<Rightarrow> Panic err
      | Exit c \<Rightarrow> Exit c
      | Return (s, Some err) \<Rightarrow> Return (None, Some err)
      | Return (None, None) \<Rightarrow> Panic (ErrorString ''invalid memory address or nil pointer dereference'')
      | Return (Some state, None) \<Rightarrow>
          Return (Some (Resume_loop e fsys [0..<length (Parts state)] state), None))"

section \<open>http.go: requests and the part worker\<close>

text \<open>
  \<open>http.Header\<close> with \<open>Get\<close>, \<open>Set\<close> and \<open>Add\<close>. Every key the program uses is
  written in its canonical form, so keys are compared as they are.
\<close>

type_synonym header = "string \<rightharpoonup> string list"

definition Header_Get :: "header \<Rightarrow> string \<Rightarrow> string" where
  "Header_Get h key = (case h key of None \<Rightarrow> [] | Some [] \<Rightarrow> [] | Some (v # vs) \<Rightarrow> v)"

definition Header_Set :: "header \<Rightarrow> string \<Rightarrow> string \<Rightarrow> header" where
  "Header_Set h key v = h(key \<mapsto> [v])"

definition Header_Add :: "header \<Rightarrow> string \<Rightarrow> string \<Rightarrow> header" where
  "Header_Add h key v = h(key \<mapsto> (case h key of None \<Rightarrow> [] | Some vs \<Rightarrow> vs) @ [v])"

record request =
  Method :: string
  req_URL :: string
  req_Header :: header

record response =
  StatusCode :: int
  resp_Header :: header
  Body :: string

definition acceptRangeHeader :: string where
  "acceptRangeHeader = ''Accept-Ranges''"

definition contentLengthHeader :: string where
  "contentLengthHeader = ''Content-Length''"

definition defaultUserAgent :: string where
  "defaultUserAgent = ''curl/8.7.1''"

text \<open>\<open>http.NewRequest\<close> fails when the URL does not parse.\<close>

definition http_NewRequest :: "env \<Rightarrow> string \<Rightarrow> string \<Rightarrow> error + request" where
  "http_NewRequest e method url =
     (case url_Parse e url of
        Inl err \<Rightarrow> Inl err
      | Inr u \<Rightarrow> Inr \<lparr>Method = method, req_URL = url, req_Header = Map.empty\<rparr>)"

text \<open>
  \<open>type HTTPDownloader struct\<close>; the field \<open>d.url\<close> is \<open>d_url\<close> and so on. The shared
  limiter is its rate and burst, if there is one.
\<close>

record HTTPDownloader =
  d_proxy :: string
  d_rate :: int64
  d_url :: string
  d_file :: string
  d_par :: int64
  d_len :: int64
  d_ips :: "string list"
  d_skipTLS :: bool
  d_parts :: "Part list"
  d_resumable :: bool
  d_sharedLimiter :: "(int64 \<times> int64) option"

text \<open>\<open>buildRequestForPart\<close>.\<close>

definition buildRequestForPart :: "env \<Rightarrow> HTTPDownloader \<Rightarrow> Part \<Rightarrow> error + request" where
  "buildRequestForPart e d part =
     (case http_NewRequest e ''GET'' (d_url d) of
        Inl err \<Rightarrow> Inl err
      | Inr req \<Rightarrow>
          (let req1 =
                 (if 1 <s d_par d then
                    (let ranges =
                           (if RangeTo part \<noteq> d_len d
                            then ''bytes='' @ fmt_d (sint (RangeFrom part)) @ ''-'' @
                                 fmt_d (sint (RangeTo part))
                            else ''bytes='' @ fmt_d (sint (RangeFrom part)) @ ''-'')
                     in req\<lparr>req_Header := Header_Add (req_Header req) ''Range'' ranges\<rparr>)
                  else req);
               req2 = req1\<lparr>req_Header := Header_Set (req_Header req1) ''Accept'' ''*/*''\<rparr>;
               req3 = req2\<lparr>req_Header :=
                        Header_Set (req_Header req2) ''User-Agent'' defaultUserAgent\<rparr>
           in Inr req3))"

text \<open>
  What one worker meets: the answer of \<open>client.Do\<close>, whether its context was cancelled,
  and how many bytes of the body \<open>io.Copy\<close> wrote to the part file before it returned (all
  of them when the transfer completes normally).
\<close>

record transfer =
  t_Do :: "request \<Rightarrow> error + response"
  ctx_cancelled :: bool
  written :: nat

text \<open>What a worker sends, in order, on the error, state and file channels.\<close>

datatype send = ErrorChan error | StateSaveChan Part | FileChan string

text \<open>
  \<open>downloadPart\<close>. The local \<open>current\<close> is \<open>int64(0)\<close> and is never assigned again.
  Whether the \<open>select\<close> leaves through the context or through the end of the copy, the
  same sends follow. Progress bars and the rate limiter are not modelled.
\<close>

definition downloadPart ::
  "env \<Rightarrow> fs \<Rightarrow> HTTPDownloader \<Rightarrow> Part \<Rightarrow> transfer \<Rightarrow> send list \<times> fs" where
  "downloadPart e fsys d part t =
     (case buildRequestForPart e d part of
        Inl err \<Rightarrow> ([ErrorChan err], fsys)
      | Inr req \<Rightarrow>
          (case t_Do t req of
             Inl err \<Rightarrow>
               if ctx_cancelled t
               then ([StateSaveChan \<lparr>Index = Index part, Part.URL = d_url d, Path = Path part,
                                      RangeFrom = RangeFrom part, RangeTo = RangeTo part\<rparr>], fsys)
               else ([ErrorChan err], fsys)
           | Inr resp \<Rightarrow>
               (case os_append e fsys (Path part) [] of
                  (fsys1, Some err) \<Rightarrow> ([ErrorChan err], fsys1)
                | (fsys1, None) \<Rightarrow>
                    (let current = (0 :: int64);
                         fsys2 = fst (os_append e fsys1 (Path part) (take (written t) (Body resp)));
                         currentPart = \<lparr>Index = Index part, Part.URL = d_url d, Path = Path part,
                                        RangeFrom = RangeFrom part + current,
                                        RangeTo = RangeTo part\<rparr>
                     in ([StateSaveChan currentPart, FileChan (Path part)], fsys2)))))"

text \<open>\<open>handleCompletedPart\<close>.\<close>

definition handleCompletedPart :: "HTTPDownloader \<Rightarrow> Part \<Rightarrow> send list" where
  "handleCompletedPart d p =
     [StateSaveChan \<lparr>Index = Index p, Part.URL = d_url d, Path = Path p,
                     RangeFrom = RangeFrom p, RangeTo = RangeTo p\<rparr>]"

section \<open>http.go: the capability prober\<close>

text \<open>
  What the network and the remaining libraries answer: \<open>client.Do\<close>,
  \<open>net.LookupIP(parsed.Hostname())\<close>, \<open>units.ParseStrictBytes\<close>, and \<open>JoinFile\<close> of
  \<open>joiner.go\<close>, which is taken as given.
\<close>

record ip =
  To4 :: bool
  ip_String :: string

record world =
  client_Do :: "request \<Rightarrow> error + response"
  net_LookupIP :: "url_URL \<Rightarrow> error + ip list"
  units_ParseStrictBytes :: "string \<Rightarrow> error + int64"
  JoinFile :: "fs \<Rightarrow> string list \<Rightarrow> string \<Rightarrow> fs \<times> error option"

definition FilterIPV4 :: "ip list \<Rightarrow> string list" where
  "FilterIPV4 ips = map ip_String (filter To4 ips)"

text \<open>
  The variables of the probe in \<open>NewHTTPDownloader\<close>, with the requests handed to
  \<open>client.Do\<close> so far.
\<close>

record probe =
  rangeSupported :: bool
  lenValue :: int64
  lengthSpecified :: bool
  issued :: "request list"

text \<open>A header value that parses as a positive \<open>int64\<close> sets the length.\<close>

definition set_length :: "string \<Rightarrow> probe \<Rightarrow> probe" where
  "set_length v p =
     (case strconv_ParseInt v of
        Inl perr \<Rightarrow> p
      | Inr n \<Rightarrow> if 0 <s n then p\<lparr>lenValue := n, lengthSpecified := True\<rparr> else p)"

text \<open>The HEAD probe, given the request \<open>http.NewRequest\<close> built.\<close>

definition head_probe :: "world \<Rightarrow> request \<Rightarrow> probe" where
  "head_probe w req0 =
     (let req = req0\<lparr>req_Header := Header_Set (Header_Set (req_Header req0) ''Accept'' ''*/*'')
                                      ''User-Agent'' defaultUserAgent\<rparr>;
          p0 = \<lparr>rangeSupported = False, lenValue = 0, lengthSpecified = False, issued = [req]\<rparr>
      in case client_Do w req of
           Inl err \<Rightarrow> p0
         | Inr resp \<Rightarrow>
             (let p1 = (if strings_Contains
                            (strings_ToLower (Header_Get (resp_Header resp) acceptRangeHeader))
                            ''bytes''
                        then p0\<lparr>rangeSupported := True\<rparr> else p0);
                  cl = Header_Get (resp_Header resp) contentLengthHeader
              in if cl \<noteq> [] then set_length cl p1 else p1))"

text \<open>The range GET probe \<open>bytes=0-0\<close>.\<close>

definition range_probe :: "env \<Rightarrow> world \<Rightarrow> string \<Rightarrow> probe \<Rightarrow> probe" where
  "range_probe e w url p =
     (if \<not> rangeSupported p \<or> lenValue p = 0 then
        (case http_NewRequest e ''GET'' url of
           Inl perr \<Rightarrow> p
         | Inr preq0 \<Rightarrow>
             (let preq = preq0\<lparr>req_Header :=
                           Header_Set (Header_Set (Header_Set (req_Header preq0)
                             ''Range'' ''bytes=0-0'') ''Accept'' ''*/*'')
                             ''User-Agent'' defaultUserAgent\<rparr>;
                  p1 = p\<lparr>issued := issued p @ [preq]\<rparr>
              in case client_Do w preq of
                   Inl derr \<Rightarrow> p1
                 | Inr pr \<Rightarrow>
                     if StatusCode pr = 206 then
                       (let p2 = p1\<lparr>rangeSupported := True\<rparr>;
                            cr = Header_Get (resp_Header pr) ''Content-Range'';
                            slash = strings_LastIndex cr ''/''
                        in if slash \<noteq> - 1 \<and> slash + 1 < int (length cr)
                           then set_length (drop (nat (slash + 1)) cr) p2
                           else p2)
                     else
                       (let p2 = p1\<lparr>rangeSupported := False\<rparr>;
                            cl = Header_Get (resp_Header pr) contentLengthHeader
                        in if cl \<noteq> [] then set_length cl p2 else p2)))
      else p)"

text \<open>
  The settings after the probes: without range support the parallelism is 1; with the
  length still 0 the length becomes 1, the parallelism 1, and the task is not resumable.
  The result is \<open>(par, lenValue, resumable)\<close>.
\<close>

definition fallback :: "probe \<Rightarrow> int64 \<Rightarrow> int64 \<times> int64 \<times> bool" where
  "fallback p par =
     (let par1 = (if \<not> rangeSupported p then 1 else par)
      in if lenValue p = 0 then (1, 1, False) else (par1, lenValue p, True))"

text \<open>
  \<open>NewHTTPDownloader\<close>. \<open>par\<close> is a Go \<open>int\<close>, 64 bits wide. The result comes with the
  file system (\<open>partCalculate\<close> makes the task folder) and the requests issued.
\<close>

definition NewHTTPDownloader ::
  "env \<Rightarrow> world \<Rightarrow> fs \<Rightarrow> string \<Rightarrow> int64 \<Rightarrow> bool \<Rightarrow> string \<Rightarrow> string \<Rightarrow>
   HTTPDownloader outcome \<times> fs \<times> request list" where
  "NewHTTPDownloader e w fsys url par skipTLS proxyServer bwLimit =
     (case url_Parse e url of
        Inl err \<Rightarrow> (Panic err, fsys, [])
      | Inr parsed \<Rightarrow>
          (case net_LookupIP w parsed of
             Inl err \<Rightarrow> (Panic err, fsys, [])
           | Inr ips \<Rightarrow>
               (let ipstr = FilterIPV4 ips
                in case http_NewRequest e ''HEAD'' url of
                     Inl err \<Rightarrow> (Panic err, fsys, [])
                   | Inr req \<Rightarrow>
                       (let p = range_probe e w url (head_probe w req)
                        in case fallback p par of
                             (par2, lenValue1, resumable) \<Rightarrow>
                               (case TaskFromURL e url of
                                  Panic err \<Rightarrow> (Panic err, fsys, issued p)
                                | Exit c \<Rightarrow> (Exit c, fsys, issued p)
                                | Return file \<Rightarrow>
                                    (let rate = (case units_ParseStrictBytes w bwLimit of
                                                   Inl err \<Rightarrow> 0
                                                 | Inr bandwidthLimit \<Rightarrow> bandwidthLimit)
                                     in case partCalculate e fsys par2 lenValue1 url of
                                          (Panic err, fsys1) \<Rightarrow> (Panic err, fsys1, issued p)
                                        | (Exit c, fsys1) \<Rightarrow> (Exit c, fsys1, issued p)
                                        | (Return parts, fsys1) \<Rightarrow>
                                            (Return \<lparr>d_proxy = proxyServer, d_rate = rate,
                                                     d_url = url, d_file = file, d_par = par2,
                                                     d_len = lenValue1, d_ips = ipstr,
                                                     d_skipTLS = skipTLS, d_parts = parts,
                                                     d_resumable = resumable,
                                                     d_sharedLimiter =
                                                       (if 0 <s rate then Some (rate, rate)
                                                        else None)\<rparr>,
                                             fsys1, issued p)))))))"

section \<open>main.go: the download coordinator\<close>





section \<open>Auxiliary notions\<close>

text \<open>The part that \<open>partCalculate\<close> assigns to \<open>ret[i]\<close>, used to state the loop's result.\<close>

definition plan_at :: "int64 \<Rightarrow> int64 \<Rightarrow> string \<Rightarrow> string \<Rightarrow> string \<Rightarrow> nat \<Rightarrow> Part" where
  "plan_at par len url file folder i =
     \<lparr>Index = of_nat i, Part.URL = url,
      Path = filepath_Join [folder, file @ ''.part'' @ fmt_06d (int i)],
      RangeFrom = int64_quo len par * of_nat i,
      RangeTo = (if int i < sint par - 1 then int64_quo len par * (of_nat i + 1) - 1 else len)\<rparr>"


text \<open>The request of the range probe, as \<open>range_probe\<close> hands it to \<open>client.Do\<close>.\<close>

definition probe_GET :: "string \<Rightarrow> request" where
  "probe_GET url =
     \<lparr>Method = ''GET'', req_URL = url,
      req_Header = [''Range'' \<mapsto> [''bytes=0-0''], ''Accept'' \<mapsto> [''*/*''],
                    ''User-Agent'' \<mapsto> [defaultUserAgent]]\<rparr>"

text \<open>
  A stack of path elements as \<open>clean_elems\<close> leaves it, last element first: no element
  is empty or \<open>.\<close>, and a \<open>..\<close> has only \<open>..\<close> below it, in a path that is not rooted.
\<close>

fun stable :: "bool \<Rightarrow> string list \<Rightarrow> bool" where
  "stable r [] = True"
| "stable r (t # ts) =
     (t \<noteq> [] \<and> t \<noteq> ''.'' \<and> (t = ''..'' \<longrightarrow> \<not> r \<and> (\<forall>x \<in> set ts. x = ''..'')) \<and> stable r ts)"

section \<open>A concrete run\<close>

text \<open>
  A task \<open>file\<close> of 100 bytes in two parts: bytes 0 to 49 with 20 bytes on disk, and the
  last part from byte 50 with \<open>RangeTo\<close> the total length 100 and 60 bytes on disk.
\<close>

definition part0 :: Part where
  "part0 = \<lparr>Index = 0, Part.URL = ''http://foo.bar/file'',
             Path = ''/home/u/.hget/file/file.part000000'', RangeFrom = 0, RangeTo = 49\<rparr>"

definition part1 :: Part where
  "part1 = \<lparr>Index = 1, Part.URL = ''http://foo.bar/file'',
             Path = ''/home/u/.hget/file/file.part000001'', RangeFrom = 50, RangeTo = 100\<rparr>"

definition state0 :: State where
  "state0 = \<lparr>State.URL = ''http://foo.bar/file'', Parts = [part0, part1]\<rparr>"

definition env0 :: env where
  "env0 = \<lparr>url_Parse = (\<lambda>u. Inr \<lparr>Scheme = ''http'', Host = ''foo.bar'', url_Path = ''/file''\<rparr>),
     user_Current = Inr ''/home/u'', os_Getenv = (\<lambda>k. if k = ''HOME'' then ''/home/u'' else []),
     os_Getwd = Inr ''/tmp'', dataFolder = ''.hget/'',
     json_Marshal = (\<lambda>s. Inr ''{}''),
     json_Unmarshal = (\<lambda>b s. (state0, None)),
     dirSize = 4096\<rparr>"

definition fs0 :: fs where
  "fs0 = [''/home/u/.hget/file/state.json'' \<mapsto> File ''{}'',
          ''/home/u/.hget/file/file.part000000'' \<mapsto> File (replicate 20 CHR ''x''),
          ''/home/u/.hget/file/file.part000001'' \<mapsto> File (replicate 60 CHR ''x'')]"

text \<open>
  The downloader of that task with parallelism 2, a task folder that exists, and a worker
  whose request is answered with a body of 50 bytes that is copied in full.
\<close>

definition d0 :: HTTPDownloader where
  "d0 = \<lparr>d_proxy = [], d_rate = 0, d_url = ''http://foo.bar/file'', d_file = ''file'',
          d_par = 2, d_len = 100, d_ips = [], d_skipTLS = False, d_parts = Parts state0,
          d_resumable = True, d_sharedLimiter = None\<rparr>"

definition fs1 :: fs where
  "fs1 = [''/home'' \<mapsto> Dir, ''/home/u'' \<mapsto> Dir, ''/home/u/.hget'' \<mapsto> Dir,
          ''/home/u/.hget/file'' \<mapsto> Dir]"

definition t0 :: transfer where
  "t0 = \<lparr>t_Do = (\<lambda>req. Inr \<lparr>StatusCode = 206, resp_Header = Map.empty,
                              Body = replicate 50 CHR ''x''\<rparr>),
          ctx_cancelled = False, written = 50\<rparr>"

text \<open>
  A world without network, and a run of the coordinator on the resumed task: a part
  reports, the signal arrives, the other part reports, and \<open>Do\<close> ends.
\<close>

definition w0 :: world where
  "w0 = \<lparr>client_Do = (\<lambda>req. Inl (ErrorString ''no network'')),
          net_LookupIP = (\<lambda>u. Inr []),
          units_ParseStrictBytes = (\<lambda>s. Inl (ErrorString ''invalid'')),
          JoinFile = (\<lambda>fsys files dest. (fsys, None))\<rparr>"


text \<open>
  A server that answers HEAD without \<open>Accept-Ranges\<close> and \<open>Content-Length\<close>, and the
  range probe with 206 and \<open>Content-Range: bytes 0-0/4096\<close>.
\<close>

definition w1 :: world where
  "w1 = \<lparr>client_Do = (\<lambda>req. if Method req = ''HEAD''
                              then Inr \<lparr>StatusCode = 200, resp_Header = Map.empty, Body = []\<rparr>
                              else Inr \<lparr>StatusCode = 206,
                                        resp_Header = [''Content-Range'' \<mapsto> [''bytes 0-0/4096'']],
                                        Body = ''x''\<rparr>),
          net_LookupIP = (\<lambda>u. Inr [\<lparr>To4 = True, ip_String = ''127.0.0.1''\<rparr>]),
          units_ParseStrictBytes = (\<lambda>s. Inl (ErrorString ''invalid'')),
          JoinFile = (\<lambda>fsys files dest. (fsys, None))\<rparr>"

definition head0 :: request where
  "head0 = \<lparr>Method = ''HEAD'', req_URL = ''http://foo.bar/file'', req_Header = Map.empty\<rparr>"

definition pr1 :: response where
  "pr1 = \<lparr>StatusCode = 206, resp_Header = [''Content-Range'' \<mapsto> [''bytes 0-0/4096'']],
           Body = ''x''\<rparr>"

text \<open>The same environment for URLs whose path is \<open>/a..b\<close>, \<open>/\<close> and \<open>/../../../foobar\<close>.\<close>

definition env_dots :: env where
  "env_dots = env0\<lparr>url_Parse :=
     (\<lambda>u. Inr \<lparr>Scheme = ''http'', Host = ''foo.bar'', url_Path = ''/a..b''\<rparr>)\<rparr>"

definition env_root :: env where
  "env_root = env0\<lparr>url_Parse :=
     (\<lambda>u. Inr \<lparr>Scheme = ''http'', Host = ''foo.bar'', url_Path = ''/''\<rparr>)\<rparr>"

definition env_up :: env where
  "env_up = env0\<lparr>url_Parse :=
     (\<lambda>u. Inr \<lparr>Scheme = ''http'', Host = ''foo.bar'', url_Path = ''/../../../foobar''\<rparr>)\<rparr>"

section \<open>Arithmetic of int64\<close>

declare partCalculate_loop.simps [simp del] rel_loop.simps [simp del] decimal.simps [simp del]

lemma sint_int64_eq:
  assumes "- (2 ^ 63) \<le> x" "x < 2 ^ 63"
  shows "sint (word_of_int x :: int64) = x"
proof -
  have "signed_take_bit 63 x = x"
    using assms by (intro signed_take_bit_int_eq_self) simp_all
  then show ?thesis by (simp add: sint_sbintrunc')
qed

lemma sint_of_nat_int64: "i < 2 ^ 63 \<Longrightarrow> sint (of_nat i :: int64) = int i"
  using sint_int64_eq [of "int i"] by simp

lemma of_nat_nat_sint: "0 \<le> sint (j::int64) \<Longrightarrow> of_nat (nat (sint j)) = j"
proof -
  assume "0 \<le> sint j"
  then have "(of_nat (nat (sint j)) :: int64) = of_int (sint j)"
    by (rule of_nat_nat)
  then show ?thesis by simp
qed

lemma sint_sub1:
  assumes "0 \<le> sint (p::int64)" shows "sint (p - 1) = sint p - 1"
proof -
  have "sint p < 2 ^ 63" using sint_lt [of p] by simp
  then have "signed_take_bit 63 (sint p - 1) = sint p - 1"
    using assms by (intro signed_take_bit_int_eq_self) simp_all
  then show ?thesis by (simp add: sint_word_ariths)
qed

lemma sint_add1:
  assumes "sint (j::int64) < sint (p::int64)" shows "sint (j + 1) = sint j + 1"
proof -
  have "sint p < 2 ^ 63" using sint_lt [of p] by simp
  moreover have "- (2 ^ 63) \<le> sint j" using sint_ge [of j] by simp
  ultimately have "signed_take_bit 63 (sint j + 1) = sint j + 1"
    using assms by (intro signed_take_bit_int_eq_self) simp_all
  then show ?thesis by (simp add: sint_word_ariths)
qed

lemma sint_quo:
  assumes "0 \<le> sint len" "0 < sint par"
  shows "sint (int64_quo len par) = sint len div sint par"
proof -
  have eq: "sint len sdiv sint par = sint len div sint par"
    using assms by (cases "sint len = 0") (simp_all add: signed_divide_int_def sgn_if)
  have "0 \<le> sint len div sint par" using assms by (simp add: pos_imp_zdiv_nonneg_iff)
  moreover have "sint len div sint par \<le> sint len"
    using assms by (metis div_by_1 int_one_le_iff_zero_less zdiv_mono2 zero_less_one)
  moreover have "sint len < 2 ^ 63" using sint_lt [of len] by simp
  ultimately show ?thesis
    unfolding int64_quo_def eq by (intro sint_int64_eq) simp_all
qed

lemma sint_mult_int64:
  fixes a b :: int64
  assumes "- (2 ^ 63) \<le> sint a * sint b" "sint a * sint b < 2 ^ 63"
  shows "sint (a * b) = sint a * sint b"
proof -
  have "signed_take_bit 63 (sint a * sint b) = sint a * sint b"
    using assms by (intro signed_take_bit_int_eq_self) simp_all
  then show ?thesis by (simp add: sint_word_ariths)
qed

section \<open>Properties of Resume\<close>

lemma Resume_loop_URL: "State.URL (Resume_loop e fsys is st) = State.URL st"
  by (induction "is" arbitrary: st) (auto simp: Let_def split: sum.splits)

lemma Resume_loop_length: "length (Parts (Resume_loop e fsys is st)) = length (Parts st)"
  by (induction "is" arbitrary: st) (auto simp: Let_def split: sum.splits)

text \<open>What the loop leaves at index \<open>i\<close>: the part is adjusted once if its turn came.\<close>

lemma Resume_loop_nth:
  "distinct is \<Longrightarrow> i < length (Parts st) \<Longrightarrow>
   Parts (Resume_loop e fsys is st) ! i =
     (if i \<in> set is then
        (case os_Stat e fsys (Path (Parts st ! i)) of
           Inl err \<Rightarrow> Parts st ! i
         | Inr d \<Rightarrow> (Parts st ! i)\<lparr>RangeFrom :=
                      min_int64 (RangeFrom (Parts st ! i) + d) (RangeTo (Parts st ! i))\<rparr>)
      else Parts st ! i)"
proof (induction "is" arbitrary: st)
  case Nil
  then show ?case by simp
next
  case (Cons j js)
  let ?p = "Parts st ! j"
  show ?case
  proof (cases "os_Stat e fsys (Path ?p)")
    case (Inl err)
    with Cons show ?thesis
      by (cases "i = j") simp_all
  next
    case (Inr d)
    let ?st' = "st\<lparr>Parts := (Parts st)[j := ?p\<lparr>RangeFrom :=
                  min_int64 (RangeFrom ?p + d) (RangeTo ?p)\<rparr>]\<rparr>"
    have step: "Resume_loop e fsys (j # js) st = Resume_loop e fsys js ?st'"
      using Inr by (simp add: Let_def)
    have len: "i < length (Parts ?st')" using Cons.prems by simp
    have dist: "distinct js" and notin: "j \<notin> set js" using Cons.prems by simp_all
    show ?thesis
    proof (cases "i = j")
      case True
      then have "Parts (Resume_loop e fsys js ?st') ! i = Parts ?st' ! i"
        using Cons.IH [OF dist len] notin by simp
      with True Inr len show ?thesis
        unfolding step by simp
    next
      case False
      then have eq: "Parts ?st' ! i = Parts st ! i" by simp
      have "i \<in> set (j # js) \<longleftrightarrow> i \<in> set js" using False by simp
      then show ?thesis
        unfolding step Cons.IH [OF dist len] eq by simp
    qed
  qed
qed

lemma Resume_Return:
  "Read e fsys task = Return (Some state, None) \<Longrightarrow>
   Resume e fsys task = Return (Some (Resume_loop e fsys [0..<length (Parts state)] state), None)"
  by (simp add: Resume_def)

lemma sint_min_int64: "sint (min_int64 a b) = min (sint a) (sint b)"
  by (simp add: min_int64_def word_sless_alt min_def)

lemma sint_add_int64:
  fixes a b :: int64
  assumes "- (2 ^ 63) \<le> sint a + sint b" and "sint a + sint b < 2 ^ 63"
  shows "sint (a + b) = sint a + sint b"
  using assms by (simp add: sint_word_ariths signed_take_bit_int_eq_self)

lemma env0_Read: "Read env0 fs0 ''file'' = Return (Some state0, None)"
  by (simp add: Read_def env0_def fs0_def TaskFromURL_def filepath_Clean_def filepath_Base_def
      strings_TrimRight_def filepath_Join_def stateFileName_def os_ReadFile_def filepath_Abs_def
      filepath_IsAbs_def)

lemma env0_Stat:
  "os_Stat env0 fs0 ''/home/u/.hget/file/file.part000000'' = Inr 20"
  "os_Stat env0 fs0 ''/home/u/.hget/file/file.part000001'' = Inr 60"
  by (simp_all add: os_Stat_def env0_def fs0_def filepath_Abs_def filepath_IsAbs_def
      filepath_Clean_def)

text \<open>
  C1, as the code has it. For every manifest that \<open>Read\<close> loads and every part of it:
  if \<open>os.Stat\<close> of the part's path succeeds with size \<open>s\<close>, \<open>Resume\<close> sets the part's
  \<open>RangeFrom\<close> to the \<open>int64\<close> minimum of \<open>RangeFrom + s\<close> and the part's own
  \<open>RangeTo\<close>, for the last part as for the others (there \<open>RangeTo\<close> is the total length,
  not the total length minus one); as integers this is \<open>min (RangeFrom + s) RangeTo\<close>
  when the sum does not overflow. If \<open>os.Stat\<close> fails, \<open>RangeFrom\<close> stays.
\<close>

theorem Resume_RangeFrom:
  assumes "Read e fsys task = Return (Some state, None)"
    and "i < length (Parts state)"
  shows "\<exists>state'. Resume e fsys task = Return (Some state', None) \<and>
    (case os_Stat e fsys (Path (Parts state ! i)) of
       Inl err \<Rightarrow> RangeFrom (Parts state' ! i) = RangeFrom (Parts state ! i)
     | Inr s \<Rightarrow>
         RangeFrom (Parts state' ! i) =
           min_int64 (RangeFrom (Parts state ! i) + s) (RangeTo (Parts state ! i)) \<and>
         (- (2 ^ 63) \<le> sint (RangeFrom (Parts state ! i)) + sint s \<and>
          sint (RangeFrom (Parts state ! i)) + sint s < 2 ^ 63 \<longrightarrow>
          sint (RangeFrom (Parts state' ! i)) =
            min (sint (RangeFrom (Parts state ! i)) + sint s) (sint (RangeTo (Parts state ! i)))))"
proof -
  let ?st' = "Resume_loop e fsys [0..<length (Parts state)] state"
  have nth: "Parts ?st' ! i =
      (case os_Stat e fsys (Path (Parts state ! i)) of
         Inl err \<Rightarrow> Parts state ! i
       | Inr d \<Rightarrow> (Parts state ! i)\<lparr>RangeFrom :=
                    min_int64 (RangeFrom (Parts state ! i) + d) (RangeTo (Parts state ! i))\<rparr>)"
    using Resume_loop_nth [of "[0..<length (Parts state)]" i state e fsys] assms(2) by simp
  have "case os_Stat e fsys (Path (Parts state ! i)) of
       Inl err \<Rightarrow> RangeFrom (Parts ?st' ! i) = RangeFrom (Parts state ! i)
     | Inr s \<Rightarrow>
         RangeFrom (Parts ?st' ! i) =
           min_int64 (RangeFrom (Parts state ! i) + s) (RangeTo (Parts state ! i)) \<and>
         (- (2 ^ 63) \<le> sint (RangeFrom (Parts state ! i)) + sint s \<and>
          sint (RangeFrom (Parts state ! i)) + sint s < 2 ^ 63 \<longrightarrow>
          sint (RangeFrom (Parts ?st' ! i)) =
            min (sint (RangeFrom (Parts state ! i)) + sint s) (sint (RangeTo (Parts state ! i))))"
    unfolding nth by (simp add: sint_min_int64 sint_add_int64 split: sum.split)
  with Resume_Return [OF assms(1)] show ?thesis by blast
qed

theorem Resume_RangeFrom_witness:
  "Read env0 fs0 ''file'' = Return (Some state0, None) \<and> (0::nat) < length (Parts state0) \<and>
   (\<exists>state'. Resume env0 fs0 ''file'' = Return (Some state', None) \<and>
      RangeFrom (Parts state' ! 0) = 20 \<and> sint (RangeFrom (Parts state' ! 0)) = 20)"
proof -
  have len: "(0::nat) < length (Parts state0)" by (simp add: state0_def)
  have p0: "Path (Parts state0 ! 0) = ''/home/u/.hget/file/file.part000000''"
    "RangeFrom (Parts state0 ! 0) = 0" "RangeTo (Parts state0 ! 0) = 49"
    by (simp_all add: state0_def part0_def)
  show ?thesis
    using Resume_RangeFrom [OF env0_Read len] len
    by (simp add: env0_Read p0 env0_Stat min_int64_def)
qed

text \<open>
  C1 as the specification words it fails on the last part: with 60 bytes on disk for the
  part from byte 50 of a 100-byte task, \<open>Resume\<close> sets \<open>RangeFrom\<close> to 100, the total
  length, and not to the total length minus one.
\<close>

theorem Resume_last_part_counterexample:
  "Resume env0 fs0 ''file'' =
     Return (Some (state0\<lparr>Parts := [(Parts state0 ! 0)\<lparr>RangeFrom := 20\<rparr>,
                                     (Parts state0 ! 1)\<lparr>RangeFrom := 100\<rparr>]\<rparr>), None) \<and>
   RangeTo (Parts state0 ! 1) = 100 \<and>
   os_Stat env0 fs0 (Path (Parts state0 ! 1)) = Inr 60 \<and>
   (100 :: int64) \<noteq> min_int64 (RangeFrom (Parts state0 ! 1) + 60) (100 - 1)"
proof -
  have "Resume_loop env0 fs0 [0..<length (Parts state0)] state0 =
      state0\<lparr>Parts := [(Parts state0 ! 0)\<lparr>RangeFrom := 20\<rparr>,
                        (Parts state0 ! 1)\<lparr>RangeFrom := 100\<rparr>]\<rparr>"
    by (simp add: state0_def part0_def part1_def upt_rec env0_Stat min_int64_def)
  then show ?thesis
    by (simp add: Resume_def env0_Read)
      (simp add: state0_def part0_def part1_def env0_Stat min_int64_def)
qed

text \<open>
  C10. \<open>Resume\<close> changes nothing but \<open>RangeFrom\<close>: for every manifest that \<open>Read\<close>
  loads, the state returned has the same \<open>URL\<close>, the same number of parts in the same
  order, and every part keeps its \<open>Index\<close>, \<open>URL\<close>, \<open>Path\<close> and \<open>RangeTo\<close>.
\<close>

theorem Resume_frame:
  assumes "Read e fsys task = Return (Some state, None)"
  shows "\<exists>state'. Resume e fsys task = Return (Some state', None) \<and>
    State.URL state' = State.URL state \<and>
    length (Parts state') = length (Parts state) \<and>
    (\<forall>i < length (Parts state).
       Index (Parts state' ! i) = Index (Parts state ! i) \<and>
       Part.URL (Parts state' ! i) = Part.URL (Parts state ! i) \<and>
       Path (Parts state' ! i) = Path (Parts state ! i) \<and>
       RangeTo (Parts state' ! i) = RangeTo (Parts state ! i))"
proof -
  let ?st' = "Resume_loop e fsys [0..<length (Parts state)] state"
  have "\<forall>i < length (Parts state).
       Index (Parts ?st' ! i) = Index (Parts state ! i) \<and>
       Part.URL (Parts ?st' ! i) = Part.URL (Parts state ! i) \<and>
       Path (Parts ?st' ! i) = Path (Parts state ! i) \<and>
       RangeTo (Parts ?st' ! i) = RangeTo (Parts state ! i)"
  proof (intro allI impI)
    fix i assume "i < length (Parts state)"
    then show "Index (Parts ?st' ! i) = Index (Parts state ! i) \<and>
       Part.URL (Parts ?st' ! i) = Part.URL (Parts state ! i) \<and>
       Path (Parts ?st' ! i) = Path (Parts state ! i) \<and>
       RangeTo (Parts ?st' ! i) = RangeTo (Parts state ! i)"
      using Resume_loop_nth [of "[0..<length (Parts state)]" i state e fsys]
      by (simp split: sum.split)
  qed
  with Resume_Return [OF assms] Resume_loop_URL Resume_loop_length show ?thesis by blast
qed

theorem Resume_frame_witness:
  "Read env0 fs0 ''file'' = Return (Some state0, None) \<and>
   (\<exists>state'. Resume env0 fs0 ''file'' = Return (Some state', None) \<and>
      State.URL state' = ''http://foo.bar/file'' \<and> length (Parts state') = 2 \<and>
      Path (Parts state' ! 1) = ''/home/u/.hget/file/file.part000001'' \<and>
      RangeTo (Parts state' ! 1) = 100)"
proof -
  obtain state' where r: "Resume env0 fs0 ''file'' = Return (Some state', None)"
    and u: "State.URL state' = State.URL state0"
    and l: "length (Parts state') = length (Parts state0)"
    and f: "\<forall>i < length (Parts state0).
       Index (Parts state' ! i) = Index (Parts state0 ! i) \<and>
       Part.URL (Parts state' ! i) = Part.URL (Parts state0 ! i) \<and>
       Path (Parts state' ! i) = Path (Parts state0 ! i) \<and>
       RangeTo (Parts state' ! i) = RangeTo (Parts state0 ! i)"
    using Resume_frame [OF env0_Read] by blast
  have "(1::nat) < length (Parts state0)" by (simp add: state0_def)
  with f have "Path (Parts state' ! 1) = Path (Parts state0 ! 1)"
    and "RangeTo (Parts state' ! 1) = RangeTo (Parts state0 ! 1)" by blast+
  with r u l show ?thesis
    by (simp add: env0_Read) (simp add: state0_def part1_def)
qed

section \<open>Properties of the range planner\<close>

lemma fold_Dir:
  "fold (\<lambda>p f. f(p \<mapsto> Dir)) ks f p = (if p \<in> set ks then Some Dir else f p)"
  by (induction ks rule: rev_induct) auto

lemma os_MkdirAll_again:
  assumes "os_MkdirAll e fsys folder = (fsys', None)"
  shows "snd (os_MkdirAll e fsys' folder) = None"
proof (cases "filepath_Abs e folder")
  case (Inl err)
  with assms show ?thesis by (simp add: os_MkdirAll_def)
next
  case (Inr k)
  let ?ks = "dir_chain [] (split_slash k)"
  from assms Inr have fs': "fsys' = fold (\<lambda>p f. f(p \<mapsto> Dir)) ?ks fsys"
    by (auto simp: os_MkdirAll_def Let_def split: if_splits)
  have "\<not> (\<exists>p \<in> set ?ks. is_File fsys' p)"
    by (auto simp: fs' is_File_def fold_Dir)
  with Inr show ?thesis by (simp add: os_MkdirAll_def Let_def)
qed

lemma MkdirIfNotExist_again:
  assumes "snd (MkdirIfNotExist e fsys folder) = None"
  shows "snd (MkdirIfNotExist e (fst (MkdirIfNotExist e fsys folder)) folder) = None"
proof (cases "os_Stat e fsys folder")
  case (Inr sz)
  then show ?thesis by (simp add: MkdirIfNotExist_def)
next
  case (Inl err)
  then have eq: "MkdirIfNotExist e fsys folder = os_MkdirAll e fsys folder"
    by (simp add: MkdirIfNotExist_def)
  obtain fsys' where mk: "os_MkdirAll e fsys folder = (fsys', None)"
    using assms eq by (cases "os_MkdirAll e fsys folder") auto
  show ?thesis
    using os_MkdirAll_again [OF mk]
    by (simp add: eq mk) (simp add: MkdirIfNotExist_def split: sum.split)
qed

lemma partCalculate_loop_Return:
  assumes tf: "TaskFromURL e url = Return file" and fo: "FolderOf e url = Return folder"
  shows "snd (MkdirIfNotExist e fsys folder) = None \<Longrightarrow> 0 \<le> sint j \<Longrightarrow>
     length ret = nat (sint par) \<Longrightarrow>
     \<exists>ret' fsys'. partCalculate_loop e par len url j fsys ret = (Return ret', fsys') \<and>
       length ret' = length ret \<and>
       (\<forall>i<length ret. ret' ! i =
          (if nat (sint j) \<le> i then plan_at par len url file folder i else ret ! i))"
  using tf fo
proof (induction e par len url j fsys ret rule: partCalculate_loop.induct)
  case (1 e par len url j fsys ret)
  show ?case
  proof (cases "j <s par")
    case False
    then have "sint par \<le> sint j" by (simp add: word_sless_alt)
    then have "\<forall>i<length ret. \<not> nat (sint j) \<le> i" using "1.prems" by auto
    with False show ?thesis
      by (subst partCalculate_loop.simps) simp
  next
    case True
    then have lt: "sint j < sint par" by (simp add: word_sless_alt)
    obtain fsys1 where mk: "MkdirIfNotExist e fsys folder = (fsys1, None)"
      using "1.prems"(1) by (cases "MkdirIfNotExist e fsys folder") auto
    let ?from = "int64_quo len par * j"
    let ?to = "if j <s par - 1 then int64_quo len par * (j + 1) - 1 else len"
    let ?path = "filepath_Join [folder, file @ ''.part'' @ fmt_06d (sint j)]"
    let ?P = "\<lparr>Index = j, Part.URL = url, Path = ?path, RangeFrom = ?from, RangeTo = ?to\<rparr>"
    let ?ret1 = "ret[nat (sint j) := ?P]"
    have step: "partCalculate_loop e par len url j fsys ret =
        partCalculate_loop e par len url (j + 1) fsys1 ?ret1"
      using True "1.prems"(4,5) mk
      by (subst partCalculate_loop.simps) (simp add: Let_def)
    have mk1: "snd (MkdirIfNotExist e fsys1 folder) = None"
      using MkdirIfNotExist_again [OF "1.prems"(1)] mk by simp
    have j1: "sint (j + 1) = sint j + 1" using lt by (rule sint_add1)
    have nn: "0 \<le> sint (j + 1)" using j1 "1.prems"(2) by simp
    have len1: "length ?ret1 = nat (sint par)" using "1.prems"(3) by simp
    have IH: "\<exists>ret' fsys'. partCalculate_loop e par len url (j + 1) fsys1 ?ret1 = (Return ret', fsys') \<and>
       length ret' = length ?ret1 \<and>
       (\<forall>i<length ?ret1. ret' ! i =
          (if nat (sint (j + 1)) \<le> i then plan_at par len url file folder i else ?ret1 ! i))"
      by (rule "1.IH" [OF True refl refl "1.prems"(4) "1.prems"(5) mk [symmetric] refl refl refl
            mk1 nn len1 "1.prems"(4) "1.prems"(5)])
    have Pj: "?P = plan_at par len url file folder (nat (sint j))"
    proof -
      have a: "of_nat (nat (sint j)) = j" using "1.prems"(2) by (rule of_nat_nat_sint)
      have b: "int (nat (sint j)) = sint j" using "1.prems"(2) by simp
      have "0 \<le> sint par" using lt "1.prems"(2) by simp
      then have c: "j <s par - 1 \<longleftrightarrow> sint j < sint par - 1"
        by (simp add: word_sless_alt sint_sub1)
      show ?thesis unfolding plan_at_def a b c by simp
    qed
    from IH obtain ret' fsys' where
      r: "partCalculate_loop e par len url (j + 1) fsys1 ?ret1 = (Return ret', fsys')"
      and l: "length ret' = length ?ret1"
      and n: "\<forall>i<length ?ret1. ret' ! i =
          (if nat (sint (j + 1)) \<le> i then plan_at par len url file folder i else ?ret1 ! i)"
      by blast
    have "\<forall>i<length ret. ret' ! i =
          (if nat (sint j) \<le> i then plan_at par len url file folder i else ret ! i)"
    proof (intro allI impI)
      fix i assume i: "i < length ret"
      have sj: "nat (sint (j + 1)) = Suc (nat (sint j))" using j1 "1.prems"(2) by simp
      show "ret' ! i = (if nat (sint j) \<le> i then plan_at par len url file folder i else ret ! i)"
      proof (cases "i = nat (sint j)")
        case True
        then show ?thesis using n i sj Pj by simp
      next
        case False
        then show ?thesis using n i sj by auto
      qed
    qed
    with r l show ?thesis unfolding step by simp
  qed
qed

lemma div_times_le:
  fixes L N :: int assumes "0 < N" shows "(L div N) * N \<le> L"
proof -
  have "(L div N) * N + L mod N = L" by (rule div_mult_mod_eq)
  moreover have "0 \<le> L mod N" using assms by simp
  ultimately show ?thesis by linarith
qed

lemma plan_at_sint:
  assumes N: "1 \<le> sint par" and L: "0 \<le> sint len" and i: "i < nat (sint par)"
  shows "sint (RangeFrom (plan_at par len url file folder i)) = (sint len div sint par) * int i"
    and "sint (RangeTo (plan_at par len url file folder i)) =
           (if int i < sint par - 1 then (sint len div sint par) * (int i + 1) - 1 else sint len)"
proof -
  let ?q = "sint len div sint par"
  have q: "sint (int64_quo len par) = ?q" using L N by (intro sint_quo) simp_all
  have q0: "0 \<le> ?q" using L N by (simp add: pos_imp_zdiv_nonneg_iff)
  have qN: "?q * sint par \<le> sint len" using N by (intro div_times_le) simp
  have Lb: "sint len < 2 ^ 63" using sint_lt [of len] by simp
  have Nb: "sint par < 2 ^ 63" using sint_lt [of par] by simp
  have ii: "int i < sint par" using i by simp
  then have "int i < 2 ^ 63" using Nb by simp
  then have "i < 2 ^ 63" by (simp only: of_nat_less_numeral_power_cancel_iff)
  then have si: "sint (of_nat i :: int64) = int i" by (rule sint_of_nat_int64)
  have le: "\<And>m. 0 \<le> m \<Longrightarrow> m \<le> sint par \<Longrightarrow> ?q * m \<le> sint len"
  proof -
    fix m :: int assume "0 \<le> m" "m \<le> sint par"
    then have "?q * m \<le> ?q * sint par" using q0 by (intro mult_left_mono) simp_all
    with qN show "?q * m \<le> sint len" by simp
  qed
  have m1: "sint (int64_quo len par * of_nat i) = ?q * int i"
  proof -
    have "?q * int i \<le> sint len" using le [of "int i"] ii by simp
    moreover have "0 \<le> ?q * int i" using q0 by simp
    ultimately show ?thesis using Lb sint_mult_int64 [of "int64_quo len par" "of_nat i"]
      by (simp add: q si)
  qed
  show "sint (RangeFrom (plan_at par len url file folder i)) = ?q * int i"
    by (simp add: plan_at_def m1)
  show "sint (RangeTo (plan_at par len url file folder i)) =
           (if int i < sint par - 1 then ?q * (int i + 1) - 1 else sint len)"
  proof (cases "int i < sint par - 1")
    case False
    then show ?thesis by (simp add: plan_at_def)
  next
    case True
    have "sint (of_nat i :: int64) < sint par" using si ii by simp
    then have s1: "sint (of_nat i + 1 :: int64) = int i + 1"
      using sint_add1 [of "of_nat i" par] si by simp
    have b: "?q * (int i + 1) \<le> sint len" using le [of "int i + 1"] True by simp
    have c: "0 \<le> ?q * (int i + 1)" using q0 by simp
    have m2: "sint (int64_quo len par * (of_nat i + 1)) = ?q * (int i + 1)"
      using b c Lb sint_mult_int64 [of "int64_quo len par" "of_nat i + 1"]
      by (simp add: q s1)
    have "sint (int64_quo len par * (of_nat i + 1) - 1) = ?q * (int i + 1) - 1"
      using sint_sub1 [of "int64_quo len par * (of_nat i + 1)"] c by (simp add: m2)
    with True show ?thesis by (simp add: plan_at_def)
  qed
qed

lemma cover_unique:
  fixes N L k :: int
  assumes N: "1 \<le> N" and L: "0 \<le> L" and k0: "0 \<le> k" and kL: "k < L"
  shows "\<exists>!i::nat. int i < N \<and> (L div N) * int i \<le> k \<and>
           k \<le> (if int i < N - 1 then (L div N) * (int i + 1) - 1 else L - 1)"
proof -
  let ?q = "L div N"
  let ?P = "\<lambda>i::nat. int i < N \<and> ?q * int i \<le> k \<and>
           k \<le> (if int i < N - 1 then ?q * (int i + 1) - 1 else L - 1)"
  have q0: "0 \<le> ?q" using L N by (simp add: pos_imp_zdiv_nonneg_iff)
  let ?w = "if k < ?q * (N - 1) then nat (k div ?q) else nat (N - 1)"
  have char: "i = ?w" if P: "?P i" for i
  proof (cases "int i < N - 1")
    case True
    with P have a: "?q * int i \<le> k" and b: "k < ?q * int i + ?q"
      by (simp_all add: algebra_simps)
    then have qpos: "0 < ?q" using q0 by (cases "?q = 0") simp_all
    have "k div ?q = int i"
    proof (rule int_div_pos_eq [of k ?q "int i" "k - ?q * int i"])
      show "k = ?q * int i + (k - ?q * int i)" by simp
      show "0 \<le> k - ?q * int i" using a by simp
      show "k - ?q * int i < ?q" using b by simp
    qed
    moreover have "k < ?q * (N - 1)"
    proof -
      have "int i + 1 \<le> N - 1" using True by simp
      then have "?q * (int i + 1) \<le> ?q * (N - 1)" using q0 by (rule mult_left_mono)
      with b show ?thesis by (simp add: algebra_simps)
    qed
    ultimately show ?thesis by simp
  next
    case False
    with P have e: "int i = N - 1" by simp
    with P have "?q * (N - 1) \<le> k" by simp
    with e show ?thesis by simp
  qed
  have ex: "?P ?w"
  proof (cases "k < ?q * (N - 1)")
    case True
    then have qpos: "0 < ?q" using q0 k0 by (cases "?q = 0") simp_all
    have d0: "0 \<le> k div ?q" using k0 qpos by (simp add: pos_imp_zdiv_nonneg_iff)
    have d2: "?q * (k div ?q) \<le> k" using qpos div_times_le [of ?q k] by (simp add: mult.commute)
    have d1: "k div ?q < N - 1"
    proof (rule ccontr)
      assume "\<not> k div ?q < N - 1"
      then have "N - 1 \<le> k div ?q" by simp
      then have "?q * (N - 1) \<le> ?q * (k div ?q)" using q0 by (rule mult_left_mono)
      with d2 True show False by simp
    qed
    have "k = ?q * (k div ?q) + k mod ?q" by simp
    moreover have "k mod ?q < ?q" using qpos by simp
    ultimately have d3: "k < ?q * (k div ?q) + ?q" by linarith
    have w: "?w = nat (k div ?q)" using True by simp
    have iw: "int (nat (k div ?q)) = k div ?q" using d0 by simp
    have "?P (nat (k div ?q))"
      unfolding iw using d1 d2 d3 by (simp add: algebra_simps)
    then show ?thesis unfolding w .
  next
    case False
    then have w: "?w = nat (N - 1)" by simp
    have iw: "int (nat (N - 1)) = N - 1" using N by simp
    have "?P (nat (N - 1))" unfolding iw using False kL by simp
    then show ?thesis unfolding w .
  qed
  show ?thesis
  proof (rule ex1I [of _ ?w])
    show "?P ?w" by (rule ex)
  next
    fix i assume "?P i" then show "i = ?w" by (rule char)
  qed
qed

lemma FolderOf_TaskFromURL:
  "FolderOf e url = Return folder \<Longrightarrow> \<exists>file. TaskFromURL e url = Return file"
  by (auto simp: FolderOf_def Let_def split: sum.splits if_splits outcome.splits)

text \<open>
  C3. For every parallelism \<open>N \<ge> 1\<close> and total length \<open>L \<ge> 0\<close> (as \<open>int64\<close>), when
  \<open>FolderOf\<close> accepts the URL and the task directory exists or can be made,
  \<open>partCalculate\<close> returns exactly \<open>N\<close> parts; part \<open>i < N - 1\<close> has
  \<open>RangeFrom = (L div N) * i\<close> and \<open>RangeTo = (L div N) * (i + 1) - 1\<close>, part \<open>N - 1\<close>
  has \<open>RangeFrom = (L div N) * (N - 1)\<close> and \<open>RangeTo = L\<close>. So every byte offset of
  \<open>[0, L)\<close> lies in exactly one part (the last part read as ending at \<open>L - 1\<close>), every
  part but the last has size \<open>L div N\<close>, and the last part has the remaining
  \<open>L - (L div N) * (N - 1)\<close> bytes.
\<close>

theorem partCalculate_plan:
  assumes N: "1 \<le> sint par" and L: "0 \<le> sint len"
    and fo: "FolderOf e url = Return folder"
    and mk: "snd (MkdirIfNotExist e fsys folder) = None"
  shows "\<exists>parts fsys'. partCalculate e fsys par len url = (Return parts, fsys') \<and>
      length parts = nat (sint par) \<and>
      (\<forall>i < nat (sint par).
          sint (RangeFrom (parts ! i)) = (sint len div sint par) * int i \<and>
          sint (RangeTo (parts ! i)) =
            (if int i < sint par - 1 then (sint len div sint par) * (int i + 1) - 1
             else sint len)) \<and>
      (\<forall>k. 0 \<le> k \<and> k < sint len \<longrightarrow>
          (\<exists>!i. int i < sint par \<and> sint (RangeFrom (parts ! i)) \<le> k \<and>
                 k \<le> (if int i < sint par - 1 then sint (RangeTo (parts ! i))
                       else sint len - 1))) \<and>
      (\<forall>i < nat (sint par). int i < sint par - 1 \<longrightarrow>
          sint (RangeTo (parts ! i)) - sint (RangeFrom (parts ! i)) + 1 = sint len div sint par) \<and>
      sint len - sint (RangeFrom (parts ! (nat (sint par) - 1))) =
        sint len - (sint len div sint par) * (sint par - 1)"
proof -
  let ?N = "sint par" and ?L = "sint len"
  let ?q = "?L div ?N"
  obtain name where tf: "TaskFromURL e url = Return name"
    using FolderOf_TaskFromURL [OF fo] by blast
  have npos: "\<not> par <s 0" using N by (simp add: word_sless_alt)
  have "\<exists>ret' fsys'. partCalculate_loop e par len url 0 fsys (replicate (nat ?N) zero_Part) =
          (Return ret', fsys') \<and>
       length ret' = length (replicate (nat ?N) zero_Part) \<and>
       (\<forall>i<length (replicate (nat ?N) zero_Part). ret' ! i =
          (if nat (sint (0::int64)) \<le> i then plan_at par len url name folder i
           else replicate (nat ?N) zero_Part ! i))"
    by (rule partCalculate_loop_Return [OF tf fo mk]) simp_all
  then obtain parts fsys' where
    r: "partCalculate e fsys par len url = (Return parts, fsys')"
    and l: "length parts = nat ?N"
    and n: "\<forall>i<nat ?N. parts ! i = plan_at par len url name folder i"
    using npos by (auto simp: partCalculate_def)
  have rf: "sint (RangeFrom (parts ! i)) = ?q * int i" if "i < nat ?N" for i
    using n that plan_at_sint(1) [OF N L that] by simp
  have rt: "sint (RangeTo (parts ! i)) =
      (if int i < ?N - 1 then ?q * (int i + 1) - 1 else ?L)" if "i < nat ?N" for i
    using n that plan_at_sint(2) [OF N L that] by simp
  have cover: "\<exists>!i. int i < ?N \<and> sint (RangeFrom (parts ! i)) \<le> k \<and>
                 k \<le> (if int i < ?N - 1 then sint (RangeTo (parts ! i)) else ?L - 1)"
    if k: "0 \<le> k" "k < ?L" for k
  proof -
    have eq: "(int i < ?N \<and> sint (RangeFrom (parts ! i)) \<le> k \<and>
                 k \<le> (if int i < ?N - 1 then sint (RangeTo (parts ! i)) else ?L - 1)) \<longleftrightarrow>
              (int i < ?N \<and> ?q * int i \<le> k \<and>
                 k \<le> (if int i < ?N - 1 then ?q * (int i + 1) - 1 else ?L - 1))" for i
    proof (cases "int i < ?N")
      case True
      then have "i < nat ?N" by simp
      then show ?thesis using rf [of i] rt [of i] by simp
    next
      case False then show ?thesis by simp
    qed
    show ?thesis unfolding eq using k by (intro cover_unique [OF N L])
  qed
  have size: "sint (RangeTo (parts ! i)) - sint (RangeFrom (parts ! i)) + 1 = ?q"
    if "i < nat ?N" "int i < ?N - 1" for i
    using rf [OF that(1)] rt [OF that(1)] that(2) by (simp add: algebra_simps)
  have "nat ?N - 1 < nat ?N" using N by simp
  then have "sint (RangeFrom (parts ! (nat ?N - 1))) = ?q * int (nat ?N - 1)" by (rule rf)
  moreover have "int (nat ?N - 1) = ?N - 1" using N by simp
  ultimately have last: "?L - sint (RangeFrom (parts ! (nat ?N - 1))) = ?L - ?q * (?N - 1)"
    by simp
  from r l rf rt cover size last show ?thesis by blast
qed

lemma env0_FolderOf: "FolderOf env0 ''http://foo.bar/file'' = Return ''/home/u/.hget/file''"
  by code_simp

lemma env0_Mkdir: "snd (MkdirIfNotExist env0 Map.empty ''/home/u/.hget/file'') = None"
  by code_simp

theorem partCalculate_plan_witness:
  "1 \<le> sint (3::int64) \<and> 0 \<le> sint (10::int64) \<and>
   FolderOf env0 ''http://foo.bar/file'' = Return ''/home/u/.hget/file'' \<and>
   snd (MkdirIfNotExist env0 Map.empty ''/home/u/.hget/file'') = None \<and>
   (\<exists>parts fsys'. partCalculate env0 Map.empty 3 10 ''http://foo.bar/file'' = (Return parts, fsys') \<and>
      length parts = 3 \<and>
      sint (RangeFrom (parts ! 0)) = 0 \<and> sint (RangeTo (parts ! 0)) = 2 \<and>
      sint (RangeFrom (parts ! 1)) = 3 \<and> sint (RangeTo (parts ! 1)) = 5 \<and>
      sint (RangeFrom (parts ! 2)) = 6 \<and> sint (RangeTo (parts ! 2)) = 10)"
proof -
  have N: "1 \<le> sint (3::int64)" and L: "0 \<le> sint (10::int64)" by simp_all
  obtain parts fsys' where
    r: "partCalculate env0 Map.empty 3 10 ''http://foo.bar/file'' = (Return parts, fsys')"
    and l: "length parts = nat (sint (3::int64))"
    and f: "\<forall>i < nat (sint (3::int64)).
          sint (RangeFrom (parts ! i)) = (sint (10::int64) div sint (3::int64)) * int i \<and>
          sint (RangeTo (parts ! i)) =
            (if int i < sint (3::int64) - 1
             then (sint (10::int64) div sint (3::int64)) * (int i + 1) - 1
             else sint (10::int64))"
    using partCalculate_plan [OF N L env0_FolderOf env0_Mkdir] by blast
  have "(0::nat) < nat (sint (3::int64))" "(1::nat) < nat (sint (3::int64))"
    "(2::nat) < nat (sint (3::int64))" by simp_all
  with f have
    "sint (RangeFrom (parts ! 0)) = 0 \<and> sint (RangeTo (parts ! 0)) = 2"
    "sint (RangeFrom (parts ! 1)) = 3 \<and> sint (RangeTo (parts ! 1)) = 5"
    "sint (RangeFrom (parts ! 2)) = 6 \<and> sint (RangeTo (parts ! 2)) = 10"
    by fastforce+
  with r l N L env0_FolderOf env0_Mkdir show ?thesis by simp
qed

section \<open>Properties of the part worker\<close>




lemma env0_url_Parse:
  "url_Parse env0 ''http://foo.bar/file'' =
     Inr \<lparr>Scheme = ''http'', Host = ''foo.bar'', url_Path = ''/file''\<rparr>"
  by (simp add: env0_def)


text \<open>
  On normal completion (the request is built, answered, the part file opens) the worker
  sends the part with \<open>RangeFrom\<close> as it was, whatever the number of bytes written, and
  then the file path.
\<close>

lemma downloadPart_completes:
  assumes "buildRequestForPart e d part = Inr req" and "t_Do t req = Inr resp"
    and "os_append e fsys (Path part) [] = (fsys1, None)"
  shows "fst (downloadPart e fsys d part t) =
     [StateSaveChan \<lparr>Index = Index part, Part.URL = d_url d, Path = Path part,
                      RangeFrom = RangeFrom part, RangeTo = RangeTo part\<rparr>,
      FileChan (Path part)]"
  using assms by (simp add: downloadPart_def Let_def)

text \<open>
  C2 fails on the code. The worker of the part from byte 50 writes the 50 bytes of the
  body to its file and completes normally; it sends the file path, but the part it sends
  has \<open>RangeFrom = 50\<close>, not \<open>50 + 50\<close>.
\<close>

theorem downloadPart_RangeFrom_not_advanced:
  "downloadPart env0 fs1 d0 part1 t0 =
     ([StateSaveChan \<lparr>Index = 1, Part.URL = ''http://foo.bar/file'',
                       Path = ''/home/u/.hget/file/file.part000001'',
                       RangeFrom = 50, RangeTo = 100\<rparr>,
       FileChan ''/home/u/.hget/file/file.part000001''],
      fs1(''/home/u/.hget/file/file.part000001'' \<mapsto> File (replicate 50 CHR ''x''))) \<and>
   written t0 = 50 \<and> RangeFrom part1 + 50 \<noteq> 50"
proof -
  have k: "filepath_Abs env0 ''/home/u/.hget/file/file.part000001'' =
      Inr ''/home/u/.hget/file/file.part000001''"
    by code_simp
  have pe: "parent_exists fs1 ''/home/u/.hget/file/file.part000001''"
    by code_simp
  have n: "fs1 ''/home/u/.hget/file/file.part000001'' = None"
    by (simp add: fs1_def)
  have p: "part1 = \<lparr>Index = 1, Part.URL = ''http://foo.bar/file'',
      Path = ''/home/u/.hget/file/file.part000001'', RangeFrom = 50, RangeTo = 100\<rparr>"
    by (simp add: part1_def)
  have b: "\<exists>req. buildRequestForPart env0 d0 part1 = Inr req"
    by (simp add: buildRequestForPart_def http_NewRequest_def env0_def d0_def Let_def)
  then obtain req where r: "buildRequestForPart env0 d0 part1 = Inr req" by blast
  have "downloadPart env0 fs1 d0 part1 t0 =
     ([StateSaveChan \<lparr>Index = 1, Part.URL = ''http://foo.bar/file'',
                       Path = ''/home/u/.hget/file/file.part000001'',
                       RangeFrom = 50, RangeTo = 100\<rparr>,
       FileChan ''/home/u/.hget/file/file.part000001''],
      fs1(''/home/u/.hget/file/file.part000001'' \<mapsto> File (replicate 50 CHR ''x'')))"
    unfolding downloadPart_def r
    by (simp add: p t0_def os_append_def k n pe Let_def d0_def)
  then show ?thesis by (simp add: t0_def p)
qed

section \<open>Properties of the download coordinator\<close>







section \<open>Properties of the capability prober\<close>

lemma strings_LastIndex_slash:
  assumes "CHR ''/'' \<notin> set t"
  shows "strings_LastIndex (a @ ''/'' @ t) ''/'' = int (length a)"
proof -
  let ?s = "a @ ''/'' @ t"
  let ?P = "\<lambda>i. prefix ''/'' (drop i ?s)"
  have split: "[0..<Suc (length ?s)] = [0..<length a] @ [length a] @ [Suc (length a)..<Suc (length ?s)]"
  proof -
    have "[0..<length a + (1 + Suc (length t))] =
        [0..<length a] @ [length a..<length a + (1 + Suc (length t))]"
      by (rule upt_add_eq_append) simp
    also have "[length a..<length a + (1 + Suc (length t))] =
        length a # [Suc (length a)..<length a + (1 + Suc (length t))]"
      by (rule upt_conv_Cons) simp
    finally show ?thesis by simp
  qed
  have none: "filter ?P (rev [Suc (length a)..<Suc (length ?s)]) = []"
  proof -
    have np: "\<not> ?P i" if "Suc (length a) \<le> i" for i
    proof -
      from that obtain k where i: "i = Suc (length a) + k" by (metis le_Suc_ex)
      have "drop i ?s = drop k t" unfolding i by simp
      moreover have "\<not> prefix ''/'' (drop k t)"
      proof
        assume "prefix ''/'' (drop k t)"
        then have "CHR ''/'' \<in> set (drop k t)" by (cases "drop k t") auto
        then show False using assms by (auto dest: in_set_dropD)
      qed
      ultimately show ?thesis by simp
    qed
    show ?thesis
    proof (rule filter_False, rule ballI)
      fix i assume "i \<in> set (rev [Suc (length a)..<Suc (length ?s)])"
      then have "Suc (length a) \<le> i" by (simp del: upt_Suc)
      then show "\<not> ?P i" by (rule np)
    qed
  qed
  have here: "?P (length a)" by simp
  show ?thesis
    unfolding strings_LastIndex_def split using none here by simp
qed


lemma strconv_ParseInt_4096: "strconv_ParseInt ''4096'' = Inr 4096"
  by (simp add: strconv_ParseInt_def is_digit_def digits_value_def Let_def)

lemma strconv_ParseInt_nonempty: "strconv_ParseInt t = Inr n \<Longrightarrow> t \<noteq> []"
  by (auto simp: strconv_ParseInt_def)

lemma set_length_pos:
  "strconv_ParseInt t = Inr n \<Longrightarrow> 0 <s n \<Longrightarrow>
   set_length t p = p\<lparr>lenValue := n, lengthSpecified := True\<rparr>"
  by (simp add: set_length_def)

lemma http_NewRequest_GET:
  assumes "http_NewRequest e ''HEAD'' url = Inr req"
  shows "http_NewRequest e ''GET'' url =
     Inr \<lparr>Method = ''GET'', req_URL = url, req_Header = Map.empty\<rparr>"
  using assms by (auto simp: http_NewRequest_def split: sum.splits)

lemma range_probe_GET:
  assumes head: "http_NewRequest e ''HEAD'' url = Inr req"
    and cond: "\<not> rangeSupported p \<or> lenValue p = 0"
  shows "range_probe e w url p =
     (let p1 = p\<lparr>issued := issued p @ [probe_GET url]\<rparr>
      in case client_Do w (probe_GET url) of
           Inl derr \<Rightarrow> p1
         | Inr pr \<Rightarrow>
             if StatusCode pr = 206 then
               (let p2 = p1\<lparr>rangeSupported := True\<rparr>;
                    cr = Header_Get (resp_Header pr) ''Content-Range'';
                    slash = strings_LastIndex cr ''/''
                in if slash \<noteq> - 1 \<and> slash + 1 < int (length cr)
                   then set_length (drop (nat (slash + 1)) cr) p2
                   else p2)
             else
               (let p2 = p1\<lparr>rangeSupported := False\<rparr>;
                    cl = Header_Get (resp_Header pr) contentLengthHeader
                in if cl \<noteq> [] then set_length cl p2 else p2))"
proof -
  have g: "\<lparr>Method = ''GET'', req_URL = url,
            req_Header = Header_Set (Header_Set (Header_Set Map.empty
              ''Range'' ''bytes=0-0'') ''Accept'' ''*/*'') ''User-Agent'' defaultUserAgent\<rparr> =
          probe_GET url"
    by (simp add: probe_GET_def Header_Set_def)
  show ?thesis
    using cond unfolding range_probe_def http_NewRequest_GET [OF head]
    by (simp add: g Let_def)
qed

lemma issued_set_length: "issued (set_length v p) = issued p"
  by (simp add: set_length_def split: sum.split)

lemma rangeSupported_set_length: "rangeSupported (set_length v p) = rangeSupported p"
  by (simp add: set_length_def split: sum.split)

lemma range_probe_issued:
  assumes head: "http_NewRequest e ''HEAD'' url = Inr req"
    and cond: "\<not> rangeSupported p \<or> lenValue p = 0"
  shows "issued (range_probe e w url p) = issued p @ [probe_GET url]"
  unfolding range_probe_GET [OF head cond]
  by (simp add: Let_def issued_set_length split: sum.split)

lemma range_probe_206:
  assumes head: "http_NewRequest e ''HEAD'' url = Inr req"
    and cond: "\<not> rangeSupported p \<or> lenValue p = 0"
    and do: "client_Do w (probe_GET url) = Inr pr" and st: "StatusCode pr = 206"
  shows "rangeSupported (range_probe e w url p)"
  unfolding range_probe_GET [OF head cond]
  by (simp add: do st Let_def rangeSupported_set_length)

lemma range_probe_206_length:
  assumes head: "http_NewRequest e ''HEAD'' url = Inr req"
    and cond: "\<not> rangeSupported p \<or> lenValue p = 0"
    and do: "client_Do w (probe_GET url) = Inr pr" and st: "StatusCode pr = 206"
    and cr: "Header_Get (resp_Header pr) ''Content-Range'' = a @ ''/'' @ t"
    and ns: "CHR ''/'' \<notin> set t" and pi: "strconv_ParseInt t = Inr n" and pos: "0 <s n"
  shows "lenValue (range_probe e w url p) = n"
proof -
  have ne: "t \<noteq> []" using pi by (rule strconv_ParseInt_nonempty)
  have li: "strings_LastIndex (a @ CHR ''/'' # t) ''/'' = int (length a)"
    using strings_LastIndex_slash [OF ns, of a] by simp
  have dr: "drop (nat (int (length a) + 1)) (a @ CHR ''/'' # t) = t"
    by (simp add: nat_add_distrib)
  have lt: "int (length a) + 1 < int (length (a @ CHR ''/'' # t))" using ne by (cases t) simp_all
  have cr': "Header_Get (resp_Header pr) ''Content-Range'' = a @ CHR ''/'' # t"
    using cr by simp
  show ?thesis
    unfolding range_probe_GET [OF head cond]
    using lt by (simp add: do st Let_def cr' li nat_add_distrib set_length_pos [OF pi pos])
qed

text \<open>
  C4. In \<open>NewHTTPDownloader\<close>, once the HEAD request is built: if the HEAD probe has not
  confirmed range support or has left the length at 0, the next request handed to the
  client is a GET with \<open>Range: bytes=0-0\<close>; if its answer has status 206, range support
  is confirmed whatever the HEAD answer said, and when \<open>Content-Range\<close> ends in
  \<open>/<total>\<close> with \<open>total\<close> a positive \<open>int64\<close> the length is \<open>total\<close>. After the
  probes, without range support the parallelism is 1, and with the length still 0 the
  parallelism is 1, the length is 1 and the task is not resumable; these are the values
  of the downloader returned.
\<close>

theorem NewHTTPDownloader_probe:
  assumes head: "http_NewRequest e ''HEAD'' url = Inr req"
  shows
   "((\<not> rangeSupported (head_probe w req) \<or> lenValue (head_probe w req) = 0) \<longrightarrow>
       issued (range_probe e w url (head_probe w req)) =
         issued (head_probe w req) @ [probe_GET url] \<and>
       Method (probe_GET url) = ''GET'' \<and>
       req_Header (probe_GET url) ''Range'' = Some [''bytes=0-0''] \<and>
       (\<forall>pr. client_Do w (probe_GET url) = Inr pr \<and> StatusCode pr = 206 \<longrightarrow>
          rangeSupported (range_probe e w url (head_probe w req)) \<and>
          (\<forall>a t n. Header_Get (resp_Header pr) ''Content-Range'' = a @ ''/'' @ t \<and>
                   CHR ''/'' \<notin> set t \<and> strconv_ParseInt t = Inr n \<and> 0 <s n \<longrightarrow>
             lenValue (range_probe e w url (head_probe w req)) = n))) \<and>
    (\<not> rangeSupported p \<longrightarrow> fst (fallback p par) = 1) \<and>
    (lenValue p = 0 \<longrightarrow> fallback p par = (1, 1, False)) \<and>
    (NewHTTPDownloader e w fsys url par skipTLS proxyServer bwLimit = (Return d, fsys1, reqs) \<longrightarrow>
       reqs = issued (range_probe e w url (head_probe w req)) \<and>
       (d_par d, d_len d, d_resumable d) =
         fallback (range_probe e w url (head_probe w req)) par)"
proof -
  let ?hp = "head_probe w req"
  let ?p = "range_probe e w url ?hp"
  have A: "issued ?p = issued ?hp @ [probe_GET url] \<and>
       Method (probe_GET url) = ''GET'' \<and>
       req_Header (probe_GET url) ''Range'' = Some [''bytes=0-0''] \<and>
       (\<forall>pr. client_Do w (probe_GET url) = Inr pr \<and> StatusCode pr = 206 \<longrightarrow>
          rangeSupported ?p \<and>
          (\<forall>a t n. Header_Get (resp_Header pr) ''Content-Range'' = a @ ''/'' @ t \<and>
                   CHR ''/'' \<notin> set t \<and> strconv_ParseInt t = Inr n \<and> 0 <s n \<longrightarrow>
             lenValue ?p = n))"
    if cond: "\<not> rangeSupported ?hp \<or> lenValue ?hp = 0"
  proof -
    have i: "issued ?p = issued ?hp @ [probe_GET url]"
      using head cond by (rule range_probe_issued)
    have m: "Method (probe_GET url) = ''GET''"
      "req_Header (probe_GET url) ''Range'' = Some [''bytes=0-0'']"
      by (simp_all add: probe_GET_def)
    have r: "rangeSupported ?p \<and>
          (\<forall>a t n. Header_Get (resp_Header pr) ''Content-Range'' = a @ ''/'' @ t \<and>
                   CHR ''/'' \<notin> set t \<and> strconv_ParseInt t = Inr n \<and> 0 <s n \<longrightarrow>
             lenValue ?p = n)"
      if do: "client_Do w (probe_GET url) = Inr pr" and st: "StatusCode pr = 206" for pr
      using range_probe_206 [OF head cond do st]
        range_probe_206_length [OF head cond do st] by blast
    from i m r show ?thesis by blast
  qed
  have B: "\<not> rangeSupported p \<longrightarrow> fst (fallback p par) = 1"
    by (simp add: fallback_def Let_def)
  have C: "lenValue p = 0 \<longrightarrow> fallback p par = (1, 1, False)"
    by (simp add: fallback_def Let_def)
  have D: "reqs = issued ?p \<and> (d_par d, d_len d, d_resumable d) = fallback ?p par"
    if "NewHTTPDownloader e w fsys url par skipTLS proxyServer bwLimit = (Return d, fsys1, reqs)"
    using that head
    by (auto simp: NewHTTPDownloader_def Let_def
        split: sum.splits prod.splits outcome.splits)
  from A B C D show ?thesis by blast
qed

lemma partCalculate_Return:
  assumes "\<not> par <s 0" and fo: "FolderOf e url = Return folder"
    and mk: "snd (MkdirIfNotExist e fsys folder) = None"
  shows "\<exists>parts fsys'. partCalculate e fsys par len url = (Return parts, fsys')"
proof -
  obtain name where tf: "TaskFromURL e url = Return name"
    using FolderOf_TaskFromURL [OF fo] by blast
  have "\<exists>ret' fsys'. partCalculate_loop e par len url 0 fsys (replicate (nat (sint par)) zero_Part) =
          (Return ret', fsys') \<and>
       length ret' = length (replicate (nat (sint par)) zero_Part) \<and>
       (\<forall>i<length (replicate (nat (sint par)) zero_Part). ret' ! i =
          (if nat (sint (0::int64)) \<le> i then plan_at par len url name folder i
           else replicate (nat (sint par)) zero_Part ! i))"
    by (rule partCalculate_loop_Return [OF tf fo mk]) simp_all
  then show ?thesis using assms(1) by (auto simp: partCalculate_def)
qed

lemma env0_head: "http_NewRequest env0 ''HEAD'' ''http://foo.bar/file'' = Inr head0"
  by (simp add: http_NewRequest_def env0_def head0_def)

lemma w1_head_probe:
  "\<not> rangeSupported (head_probe w1 head0)" "lenValue (head_probe w1 head0) = 0"
  by (simp_all add: head_probe_def w1_def head0_def Let_def Header_Get_def Header_Set_def
      acceptRangeHeader_def contentLengthHeader_def strings_ToLower_def strings_Contains_def)

lemma w1_probe_GET: "client_Do w1 (probe_GET ''http://foo.bar/file'') = Inr pr1"
  by (simp add: w1_def probe_GET_def pr1_def)

lemma pr1_facts: "StatusCode pr1 = 206"
  "Header_Get (resp_Header pr1) ''Content-Range'' = ''bytes 0-0'' @ ''/'' @ ''4096''"
  by (simp_all add: pr1_def Header_Get_def)

lemma w0_probe:
  "\<not> rangeSupported (range_probe env0 w0 ''http://foo.bar/file'' (head_probe w0 head0))"
  "lenValue (range_probe env0 w0 ''http://foo.bar/file'' (head_probe w0 head0)) = 0"
  by (simp_all add: range_probe_def head_probe_def w0_def Let_def http_NewRequest_def env0_def)

lemma env0_NewHTTPDownloader_Return:
  assumes "net_LookupIP w \<lparr>Scheme = ''http'', Host = ''foo.bar'', url_Path = ''/file''\<rparr> = Inr ips"
    and "\<not> fst (fallback (range_probe env0 w ''http://foo.bar/file'' (head_probe w head0)) par) <s 0"
  shows "\<exists>d fsys1 reqs. NewHTTPDownloader env0 w Map.empty ''http://foo.bar/file'' par
            False [] [] = (Return d, fsys1, reqs)"
proof -
  let ?f = "fallback (range_probe env0 w ''http://foo.bar/file'' (head_probe w head0)) par"
  obtain par2 len1 res where f: "?f = (par2, len1, res)" by (cases ?f) auto
  have "\<not> par2 <s 0" using assms(2) by (simp add: f)
  then obtain parts fsys' where
    pc: "partCalculate env0 Map.empty par2 len1 ''http://foo.bar/file'' = (Return parts, fsys')"
    using partCalculate_Return [OF _ env0_FolderOf env0_Mkdir] by blast
  have tf: "TaskFromURL env0 ''http://foo.bar/file'' = Return ''file''" by code_simp
  show ?thesis
    by (simp add: NewHTTPDownloader_def env0_url_Parse assms(1) env0_head tf Let_def f pc)
qed

theorem NewHTTPDownloader_probe_witness:
  "http_NewRequest env0 ''HEAD'' ''http://foo.bar/file'' = Inr head0 \<and>
   \<not> rangeSupported (head_probe w1 head0) \<and>
   client_Do w1 (probe_GET ''http://foo.bar/file'') = Inr pr1 \<and> StatusCode pr1 = 206 \<and>
   Header_Get (resp_Header pr1) ''Content-Range'' = ''bytes 0-0'' @ ''/'' @ ''4096'' \<and>
   CHR ''/'' \<notin> set ''4096'' \<and> strconv_ParseInt ''4096'' = Inr 4096 \<and> (0 :: int64) <s 4096 \<and>
   issued (range_probe env0 w1 ''http://foo.bar/file'' (head_probe w1 head0)) =
     issued (head_probe w1 head0) @ [probe_GET ''http://foo.bar/file''] \<and>
   rangeSupported (range_probe env0 w1 ''http://foo.bar/file'' (head_probe w1 head0)) \<and>
   lenValue (range_probe env0 w1 ''http://foo.bar/file'' (head_probe w1 head0)) = 4096 \<and>
   (\<exists>d fsys1 reqs. NewHTTPDownloader env0 w1 Map.empty ''http://foo.bar/file'' 4 False [] [] =
        (Return d, fsys1, reqs) \<and> d_par d = 4 \<and> d_len d = 4096 \<and> d_resumable d) \<and>
   \<not> rangeSupported (range_probe env0 w0 ''http://foo.bar/file'' (head_probe w0 head0)) \<and>
   lenValue (range_probe env0 w0 ''http://foo.bar/file'' (head_probe w0 head0)) = 0 \<and>
   (\<exists>d fsys1 reqs. NewHTTPDownloader env0 w0 Map.empty ''http://foo.bar/file'' 4 False [] [] =
        (Return d, fsys1, reqs) \<and> d_par d = 1 \<and> d_len d = 1 \<and> \<not> d_resumable d)"
proof -
  let ?url = "''http://foo.bar/file''"
  let ?pa = "range_probe env0 w1 ?url (head_probe w1 head0)"
  let ?pb = "range_probe env0 w0 ?url (head_probe w0 head0)"
  have pos: "(0 :: int64) <s 4096" by (simp add: word_sless_alt)
  have ns: "CHR ''/'' \<notin> set ''4096''" by simp
  note T1 = NewHTTPDownloader_probe [OF env0_head, of w1]
  have cond: "\<not> rangeSupported (head_probe w1 head0) \<or> lenValue (head_probe w1 head0) = 0"
    using w1_head_probe by simp
  have a1: "issued ?pa = issued (head_probe w1 head0) @ [probe_GET ?url]"
    using T1 cond by blast
  have a2: "rangeSupported ?pa"
    using T1 cond w1_probe_GET pr1_facts(1) by blast
  have a3: "lenValue ?pa = 4096"
    using T1 cond w1_probe_GET pr1_facts ns strconv_ParseInt_4096 pos by blast
  have fa: "fallback ?pa 4 = (4, 4096, True)"
    using a2 a3 by (simp add: fallback_def Let_def)
  have "\<not> fst (fallback ?pa 4) <s 0" unfolding fa by (simp add: word_sless_alt)
  then obtain d fsys1 reqs where
    r1: "NewHTTPDownloader env0 w1 Map.empty ?url 4 False [] [] = (Return d, fsys1, reqs)"
    using env0_NewHTTPDownloader_Return [of w1 _ 4] by (auto simp: w1_def)
  have d1: "(d_par d, d_len d, d_resumable d) = fallback ?pa 4"
    using T1 r1 by blast
  note T0 = NewHTTPDownloader_probe [OF env0_head, of w0]
  have fb: "fallback ?pb 4 = (1, 1, False)"
    using T0 w0_probe(2) by blast
  have "\<not> fst (fallback ?pb 4) <s 0" unfolding fb by (simp add: word_sless_alt)
  then obtain d' fsys1' reqs' where
    r0: "NewHTTPDownloader env0 w0 Map.empty ?url 4 False [] [] = (Return d', fsys1', reqs')"
    using env0_NewHTTPDownloader_Return [of w0 _ 4] by (auto simp: w0_def)
  have d0: "(d_par d', d_len d', d_resumable d') = fallback ?pb 4"
    using T0 r0 by blast
  show ?thesis
    using env0_head w1_head_probe(1) w1_probe_GET pr1_facts ns strconv_ParseInt_4096 pos
      a1 a2 a3 r1 d1 fa w0_probe r0 d0 fb
    by simp
qed

section \<open>Properties of the path utilities\<close>

lemma dotdot_append:
  "sublist ''..'' (ys @ zs) \<longleftrightarrow>
     sublist ''..'' ys \<or> sublist ''..'' zs \<or> (suffix ''.'' ys \<and> prefix ''.'' zs)"
proof
  assume "sublist ''..'' (ys @ zs)"
  then consider "sublist ''..'' ys" | "sublist ''..'' zs"
    | xs1 xs2 where "''..'' = xs1 @ xs2" "suffix xs1 ys" "prefix xs2 zs"
    unfolding sublist_append by blast
  then show "sublist ''..'' ys \<or> sublist ''..'' zs \<or> (suffix ''.'' ys \<and> prefix ''.'' zs)"
  proof cases
    case 3
    from 3(1) have "(xs1 = [] \<and> xs2 = ''..'') \<or> (xs1 = ''.'' \<and> xs2 = ''.'') \<or>
        (xs1 = ''..'' \<and> xs2 = [])"
      by (auto simp: Cons_eq_append_conv)
    with 3(2,3) show ?thesis by (auto dest: prefix_imp_sublist suffix_imp_sublist)
  qed simp_all
next
  assume "sublist ''..'' ys \<or> sublist ''..'' zs \<or> (suffix ''.'' ys \<and> prefix ''.'' zs)"
  then show "sublist ''..'' (ys @ zs)"
  proof (elim disjE conjE)
    assume "suffix ''.'' ys" "prefix ''.'' zs"
    then have "\<exists>xs1 xs2. ''..'' = xs1 @ xs2 \<and> suffix xs1 ys \<and> prefix xs2 zs"
      by (intro exI [of _ "''.''"]) simp
    then show ?thesis unfolding sublist_append by blast
  qed (simp_all add: sublist_append)
qed

lemma dotdot_slash: "sublist ''..'' (CHR ''/'' # zs) \<longleftrightarrow> sublist ''..'' zs"
  using dotdot_append [of "''/''" zs] by (simp add: suffix_Cons sublist_Cons_right)

lemma dotdot_join_slash:
  "sublist ''..'' (join_slash es) \<Longrightarrow> \<exists>e \<in> set es. sublist ''..'' e"
proof (induction es rule: join_slash.induct)
  case 1
  then show ?case by simp
next
  case (2 e)
  then show ?case by simp
next
  case (3 e e' es)
  from "3.prems" have "sublist ''..'' (e @ CHR ''/'' # join_slash (e' # es))" by simp
  then have "sublist ''..'' e \<or> sublist ''..'' (join_slash (e' # es))"
    unfolding dotdot_append [of e] dotdot_slash by auto
  with "3.IH" show ?case by auto
qed

lemma split_slash_hd: "split_slash s \<noteq> [] \<and> prefix (hd (split_slash s)) s"
  by (induction s) (auto split: list.splits)

lemma split_slash_sublist: "e \<in> set (split_slash s) \<Longrightarrow> sublist e s"
proof (induction s arbitrary: e)
  case Nil
  then show ?case by simp
next
  case (Cons c cs)
  show ?case
  proof (cases "c = CHR ''/''")
    case True
    with Cons.prems have "e = [] \<or> e \<in> set (split_slash cs)" by simp
    then show ?thesis using Cons.IH by (auto simp: sublist_Cons_right)
  next
    case False
    obtain e0 es where sp: "split_slash cs = e0 # es"
      using split_slash_hd [of cs] by (cases "split_slash cs") auto
    have p: "prefix e0 cs" using split_slash_hd [of cs] sp by simp
    from Cons.prems False sp have "e = c # e0 \<or> e \<in> set es" by simp
    then show ?thesis
    proof
      assume "e = c # e0"
      then show ?thesis using p by (simp add: sublist_Cons_right)
    next
      assume "e \<in> set es"
      then have "sublist e cs" using Cons.IH sp by simp
      then show ?thesis by (simp add: sublist_Cons_right)
    qed
  qed
qed

lemma clean_elems_subset:
  "''..'' \<notin> set es \<Longrightarrow> set (clean_elems rooted es out) \<subseteq> set es \<union> set out"
  by (induction rooted es out rule: clean_elems.induct) (auto split: list.splits if_splits)

lemma filepath_Clean_dotdot:
  assumes "\<not> sublist ''..'' path"
  shows "\<not> sublist ''..'' (filepath_Clean path)"
proof (cases "path = []")
  case True
  then show ?thesis by (simp add: filepath_Clean_def sublist_Cons_right)
next
  case False
  let ?rooted = "hd path = CHR ''/''"
  let ?out = "clean_elems ?rooted (split_slash path) []"
  have comps: "\<not> sublist ''..'' e" if "e \<in> set (split_slash path)" for e
    using split_slash_sublist [OF that] assms sublist_order.order.trans by blast
  then have "''..'' \<notin> set (split_slash path)" by auto
  then have "set ?out \<subseteq> set (split_slash path)"
    using clean_elems_subset [of "split_slash path" ?rooted "[]"] by simp
  then have "\<forall>e \<in> set (rev ?out). \<not> sublist ''..'' e" using comps by auto
  then have j: "\<not> sublist ''..'' (join_slash (rev ?out))"
    using dotdot_join_slash by blast
  show ?thesis
  proof (cases ?rooted)
    case True
    with False j show ?thesis by (simp add: filepath_Clean_def Let_def dotdot_slash)
  next
    case nr: False
    with False j show ?thesis
      by (simp add: filepath_Clean_def Let_def sublist_Cons_right)
  qed
qed

lemma strings_TrimRight_prefix: "prefix (strings_TrimRight s cutset) s"
proof -
  have "suffix (dropWhile (\<lambda>c. c \<in> set cutset) (rev s)) (rev s)"
    by (rule suffix_dropWhile)
  then show ?thesis
    unfolding strings_TrimRight_def by (simp add: suffix_to_prefix)
qed

lemma strings_TrimRight_last:
  "strings_TrimRight s cutset \<noteq> [] \<Longrightarrow> last (strings_TrimRight s cutset) \<notin> set cutset"
  unfolding strings_TrimRight_def
  using hd_dropWhile [of "\<lambda>c. c \<in> set cutset" "rev s"] by (simp add: last_rev)

lemma filepath_Base_element:
  assumes "r = [] \<or> last r \<noteq> CHR ''/''"
  shows "filepath_Base r \<noteq> [] \<and> CHR ''/'' \<notin> set (filepath_Base r) \<and>
         (filepath_Base r = ''.'' \<or> suffix (filepath_Base r) r)"
proof (cases "r = []")
  case True
  then show ?thesis by (simp add: filepath_Base_def)
next
  case False
  with assms have l: "hd (rev r) \<noteq> CHR ''/''" by (simp add: hd_rev)
  have r: "rev r \<noteq> []" using False by simp
  then have p: "dropWhile (\<lambda>c. c = CHR ''/'') (rev r) = rev r"
    using l by (cases "rev r") auto
  let ?e = "takeWhile (\<lambda>c. c \<noteq> CHR ''/'') (rev r)"
  have ne: "?e \<noteq> []" using r l by (simp add: takeWhile_eq_Nil_iff)
  have b: "filepath_Base r = rev ?e"
    using False ne by (simp add: filepath_Base_def p Let_def)
  have "prefix ?e (rev r)" by (rule takeWhile_is_prefix)
  then have s: "suffix (rev ?e) r" by (simp add: suffix_to_prefix)
  have "CHR ''/'' \<notin> set ?e" by (auto dest: set_takeWhileD)
  with b ne s show ?thesis by simp
qed

lemma base_trim_element:
  fixes p :: string
  defines "name \<equiv> filepath_Base (strings_TrimRight p [CHR ''/'', CHR 0x5C])"
  shows "name \<noteq> [] \<and> CHR ''/'' \<notin> set name \<and> (sublist ''..'' name \<longrightarrow> sublist ''..'' p)"
proof -
  let ?r = "strings_TrimRight p [CHR ''/'', CHR 0x5C]"
  have "?r = [] \<or> last ?r \<noteq> CHR ''/''"
    using strings_TrimRight_last [of p "[CHR ''/'', CHR 0x5C]"] by auto
  then have b: "name \<noteq> [] \<and> CHR ''/'' \<notin> set name \<and> (name = ''.'' \<or> suffix name ?r)"
    unfolding name_def by (rule filepath_Base_element)
  have "sublist ''..'' p" if d: "sublist ''..'' name"
  proof -
    from d have "name \<noteq> ''.''" by (auto simp: sublist_Cons_right)
    with b have "sublist name ?r" by (auto dest: suffix_imp_sublist)
    moreover have "sublist ?r p"
      using strings_TrimRight_prefix [of p] by (rule prefix_imp_sublist)
    ultimately show ?thesis using d sublist_order.order.trans by blast
  qed
  with b show ?thesis by blast
qed

text \<open>
  C6, as the code has it. For every URL that parses, \<open>TaskFromURL\<close> (in either
  revision) returns a name that is not empty and contains no path separator \<open>/\<close>; and the
  name contains no \<open>..\<close> whenever the path of the URL contains none. A \<open>..\<close> in the path
  is not rejected here but in \<open>FolderOf\<close>.
\<close>

theorem TaskFromURL_element:
  assumes "url_Parse e urlStr = Inr u"
  shows "(\<exists>name. TaskFromURL e urlStr = Return name \<and> name \<noteq> [] \<and> CHR ''/'' \<notin> set name \<and>
            (\<not> strings_Contains (url_Path u) ''..'' \<longrightarrow> \<not> strings_Contains name ''..'')) \<and>
         (\<exists>name. TaskFromURL_plain e urlStr = Return name \<and> name \<noteq> [] \<and>
            CHR ''/'' \<notin> set name \<and>
            (\<not> strings_Contains (url_Path u) ''..'' \<longrightarrow> \<not> strings_Contains name ''..''))"
proof
  let ?n = "filepath_Base (strings_TrimRight (filepath_Clean (url_Path u)) [CHR ''/'', CHR 0x5C])"
  have "TaskFromURL e urlStr = Return ?n" using assms by (simp add: TaskFromURL_def)
  moreover have "?n \<noteq> [] \<and> CHR ''/'' \<notin> set ?n"
    using base_trim_element [of "filepath_Clean (url_Path u)"] by simp
  moreover have "\<not> strings_Contains (url_Path u) ''..'' \<longrightarrow> \<not> strings_Contains ?n ''..''"
    using base_trim_element [of "filepath_Clean (url_Path u)"]
      filepath_Clean_dotdot [of "url_Path u"]
    unfolding strings_Contains_def by blast
  ultimately show "\<exists>name. TaskFromURL e urlStr = Return name \<and> name \<noteq> [] \<and>
      CHR ''/'' \<notin> set name \<and>
      (\<not> strings_Contains (url_Path u) ''..'' \<longrightarrow> \<not> strings_Contains name ''..'')"
    by blast
next
  let ?n = "filepath_Base (strings_TrimRight (url_Path u) [CHR ''/'', CHR 0x5C])"
  have "TaskFromURL_plain e urlStr = Return ?n" using assms by (simp add: TaskFromURL_plain_def)
  moreover have "?n \<noteq> [] \<and> CHR ''/'' \<notin> set ?n \<and>
      (\<not> strings_Contains (url_Path u) ''..'' \<longrightarrow> \<not> strings_Contains ?n ''..'')"
    using base_trim_element [of "url_Path u"] unfolding strings_Contains_def by blast
  ultimately show "\<exists>name. TaskFromURL_plain e urlStr = Return name \<and> name \<noteq> [] \<and>
      CHR ''/'' \<notin> set name \<and>
      (\<not> strings_Contains (url_Path u) ''..'' \<longrightarrow> \<not> strings_Contains name ''..'')"
    by blast
qed

theorem TaskFromURL_element_witness:
  "url_Parse env0 ''http://foo.bar/file'' =
     Inr \<lparr>Scheme = ''http'', Host = ''foo.bar'', url_Path = ''/file''\<rparr> \<and>
   \<not> strings_Contains ''/file'' ''..'' \<and>
   (\<exists>name. TaskFromURL env0 ''http://foo.bar/file'' = Return name \<and> name \<noteq> [] \<and>
      CHR ''/'' \<notin> set name \<and> \<not> strings_Contains name ''..'') \<and>
   (\<exists>name. TaskFromURL_plain env0 ''http://foo.bar/file'' = Return name \<and> name \<noteq> [] \<and>
      CHR ''/'' \<notin> set name \<and> \<not> strings_Contains name ''..'')"
proof -
  have nd: "\<not> strings_Contains ''/file'' ''..''"
    by (simp add: strings_Contains_def sublist_Cons_right)
  show ?thesis
    using TaskFromURL_element [OF env0_url_Parse] nd env0_url_Parse by simp
qed

text \<open>
  C6 as the specification words it fails: for the URL \<open>http://foo.bar/a..b\<close>, whose path
  is \<open>/a..b\<close>, \<open>TaskFromURL\<close> returns \<open>a..b\<close>, which contains \<open>..\<close>.
\<close>

theorem TaskFromURL_dotdot_counterexample:
  "TaskFromURL env_dots ''http://foo.bar/a..b'' = Return ''a..b'' \<and>
   TaskFromURL_plain env_dots ''http://foo.bar/a..b'' = Return ''a..b'' \<and>
   strings_Contains ''a..b'' ''..''"
  by code_simp

text \<open>
  \<open>FolderOf\<close> rejects every URL whose path contains \<open>..\<close> with the traversal error, and
  then neither \<open>partCalculate\<close> nor \<open>Save\<close> changes the file system.
\<close>

lemma FolderOf_rejects_dotdot:
  assumes "user_Current e = Inr homeDir" and "url_Parse e urlStr = Inr u"
    and "strings_Contains (url_Path u) ''..''"
  shows "FolderOf e urlStr = Panic traversal_error"
  using assms by (simp add: FolderOf_def Let_def)

lemma partCalculate_rejects_dotdot:
  assumes "user_Current e = Inr homeDir" and "url_Parse e url = Inr u"
    and "strings_Contains (url_Path u) ''..''" and "0 <s par"
  shows "partCalculate e fsys par len url = (Panic traversal_error, fsys)"
proof -
  have np: "\<not> par <s 0" using assms(4) by (simp add: word_sless_alt)
  have fo: "FolderOf e url = Panic traversal_error"
    using assms(1-3) by (rule FolderOf_rejects_dotdot)
  obtain name where tf: "TaskFromURL e url = Return name"
    using assms(2) by (simp add: TaskFromURL_def)
  show ?thesis
    using np assms(4)
    by (simp add: partCalculate_def) (subst partCalculate_loop.simps, simp add: fo tf Let_def)
qed

lemma Save_rejects_dotdot:
  assumes "FolderOf e (State.URL s) = Panic err"
  shows "Save e fsys s = (Panic err, fsys)"
  using assms by (simp add: Save_def)

text \<open>
  C7 fails on the code at a URL with an empty path: for \<open>http://foo.bar/\<close> the task
  name is \<open>.\<close>, the relative path from the data folder is \<open>.\<close>, which contains no \<open>..\<close>,
  and \<open>FolderOf\<close> (in either revision) returns the data folder itself, not a path
  strictly below it. The earlier revision also accepts \<open>http://foo.bar/../../../foobar\<close>.
\<close>

theorem FolderOf_returns_data_folder:
  "FolderOf env_root ''http://foo.bar/'' = Return ''/home/u/.hget'' \<and>
   FolderOf_getenv env_root ''http://foo.bar/'' = Return ''/home/u/.hget'' \<and>
   filepath_Join [''/home/u'', dataFolder env_root] = ''/home/u/.hget'' \<and>
   FolderOf env_up ''http://foo.bar/../../../foobar'' = Panic traversal_error \<and>
   FolderOf_getenv env_up ''http://foo.bar/../../../foobar'' = Return ''/home/u/.hget/foobar''"
  by code_simp

end
